theory Spec2Isabelle
  imports Main
begin

section \<open>JavaScript strings and values\<close>


definition isWhitespace :: "char \<Rightarrow> bool" where
  "isWhitespace c =
     (c = CHR 0x09 \<or> c = CHR 0x0A \<or> c = CHR 0x0B \<or> c = CHR 0x0C \<or> c = CHR 0x0D \<or> c = CHR 0x20)"

definition trim :: "string \<Rightarrow> string" where
  "trim s = rev (dropWhile isWhitespace (rev (dropWhile isWhitespace s)))"

definition toUpperChar :: "char \<Rightarrow> char" where
  "toUpperChar c =
     (case map_of (zip ''abcdefghijklmnopqrstuvwxyz'' ''ABCDEFGHIJKLMNOPQRSTUVWXYZ'') c of
        Some u \<Rightarrow> u
      | None \<Rightarrow> c)"

definition toUpperCase :: "string \<Rightarrow> string" where
  "toUpperCase s = map toUpperChar s"

text \<open>\<^verbatim>\<open>s.replace(/_/g, ' ')\<close>\<close>

definition replaceUnderscores :: "string \<Rightarrow> string" where
  "replaceUnderscores s = map (\<lambda>c. if c = CHR ''_'' then CHR '' '' else c) s"

text \<open>\<^verbatim>\<open>s.replace(/\s+/g, r)\<close>: every maximal run of white space becomes the one character r.\<close>

function replaceWhitespaceRuns :: "char \<Rightarrow> string \<Rightarrow> string" where
  "replaceWhitespaceRuns r [] = []"
| "replaceWhitespaceRuns r (c # cs) =
     (if isWhitespace c then r # replaceWhitespaceRuns r (dropWhile isWhitespace cs)
      else c # replaceWhitespaceRuns r cs)"
  by pat_completeness auto
termination
  by (relation "measure (\<lambda>(r, s). length s)")
     (auto simp: less_Suc_eq_le length_dropWhile_le)

text \<open>\<^verbatim>\<open>s.split('^')\<close>: the pieces between the separators; never the empty array.\<close>

fun splitOn :: "char \<Rightarrow> string \<Rightarrow> string list" where
  "splitOn sep [] = [[]]"
| "splitOn sep (c # cs) =
     (if c = sep then [] # splitOn sep cs
      else (case splitOn sep cs of
              [] \<Rightarrow> [[c]]
            | p # ps \<Rightarrow> (c # p) # ps))"

text \<open>\<^verbatim>\<open>parts[i] || ''\<close>: an index out of range reads \<^verbatim>\<open>undefined\<close>.\<close>

definition partOr :: "string list \<Rightarrow> nat \<Rightarrow> string" where
  "partOr parts i = (if i < length parts then parts ! i else [])"

text \<open>\<^verbatim>\<open>xs.join(' ')\<close>\<close>

fun joinWith :: "string \<Rightarrow> string list \<Rightarrow> string" where
  "joinWith sep [] = []"
| "joinWith sep [x] = x"
| "joinWith sep (x # y # ys) = x @ sep @ joinWith sep (y # ys)"

text \<open>Decimal digits of a number, as a template literal prints it.\<close>

definition digitChar :: "nat \<Rightarrow> char" where
  "digitChar d = ''0123456789'' ! d"

fun showNat :: "nat \<Rightarrow> string" where
  "showNat n = (if n < 10 then [digitChar n] else showNat (n div 10) @ [digitChar (n mod 10)])"

section \<open>Person names\<close>

record nameInfo =
  fullName :: string
  firstName :: string
  lastName :: string
  middleName :: string
  namePrefix :: string
  nameSuffix :: string
  originalDicomFormat :: string
  formattedForDisplay :: string

text \<open>
  \<^verbatim>\<open>processDicomPersonName(dicomNameField)\<close>. The argument is \<open>None\<close> when the field is
  \<^verbatim>\<open>undefined\<close>, \<^verbatim>\<open>null\<close> or not a string; the empty string is falsy in JavaScript, so
  the first guard takes it as well.
\<close>

definition processDicomPersonName :: "string option \<Rightarrow> nameInfo" where
  "processDicomPersonName dicomNameField =
     (case dicomNameField of
        None \<Rightarrow>
          \<lparr>fullName = ''Unknown Patient'', firstName = '''', lastName = ''Unknown'',
           middleName = '''', namePrefix = '''', nameSuffix = '''',
           originalDicomFormat = '''', formattedForDisplay = ''Unknown Patient''\<rparr>
      | Some field \<Rightarrow>
          if field = '''' then
            \<lparr>fullName = ''Unknown Patient'', firstName = '''', lastName = ''Unknown'',
             middleName = '''', namePrefix = '''', nameSuffix = '''',
             originalDicomFormat = '''', formattedForDisplay = ''Unknown Patient''\<rparr>
          else
            (let nameString = trim field in
             if nameString = '''' \<or> nameString = ''^'' \<or> nameString = ''^^^'' then
               \<lparr>fullName = ''Anonymous Patient'', firstName = '''', lastName = ''Anonymous'',
                middleName = '''', namePrefix = '''', nameSuffix = '''',
                originalDicomFormat = nameString, formattedForDisplay = ''Anonymous Patient''\<rparr>
             else
               (let parts = splitOn CHR ''^'' nameString;
                    familyName = trim (partOr parts 0);
                    givenName = trim (partOr parts 1);
                    middle = trim (partOr parts 2);
                    prefix = trim (partOr parts 3);
                    suffix = trim (partOr parts 4);
                    nameParts = filter (\<lambda>p. p \<noteq> '''') [prefix, givenName, middle, familyName, suffix];
                    displayName = (if nameParts \<noteq> [] then joinWith '' '' nameParts
                                   else ''Unknown Patient'')
                in \<lparr>fullName = displayName, firstName = givenName, lastName = familyName,
                    middleName = middle, namePrefix = prefix, nameSuffix = suffix,
                    originalDicomFormat = nameString, formattedForDisplay = displayName\<rparr>)))"

section \<open>Lab identifiers\<close>

text \<open>
  The two derivations inside the loop of \<^verbatim>\<open>findOrCreateSourceLab\<close>:
  \<^verbatim>\<open>labName = source.trim().replace(/_/g, ' ').replace(/\s+/g, ' ')\<close> and
  \<^verbatim>\<open>identifier = labName.toUpperCase().replace(/\s+/g, '_')\<close>.
\<close>

definition labNameOf :: "string \<Rightarrow> string" where
  "labNameOf source = replaceWhitespaceRuns CHR '' '' (replaceUnderscores (trim source))"

definition labIdentifierOf :: "string \<Rightarrow> string" where
  "labIdentifierOf source = replaceWhitespaceRuns CHR ''_'' (toUpperCase (labNameOf source))"

section \<open>Tag sets and archive data\<close>

text \<open>
  A tag set is a JavaScript object with string values, kept as an association list whose
  first entry for a key is the one that counts. \<^verbatim>\<open>{...a, ...b}\<close> is \<open>spread a b\<close>: the
  entries of b win. \<^verbatim>\<open>Object.keys(t).length === 0\<close> is \<open>t = []\<close>.
\<close>

type_synonym tags = "(string \<times> string) list"

definition tag :: "tags \<Rightarrow> string \<Rightarrow> string option" where
  "tag t k = map_of t k"

definition spread :: "tags \<Rightarrow> tags \<Rightarrow> tags" where
  "spread a b = b @ a"

text \<open>Truthiness of a field read: \<^verbatim>\<open>undefined\<close> and the empty string are falsy.\<close>

definition truthy :: "string option \<Rightarrow> bool" where
  "truthy v = (case v of None \<Rightarrow> False | Some s \<Rightarrow> s \<noteq> [])"

text \<open>\<^verbatim>\<open>v || d\<close> with a string default, and \<^verbatim>\<open>v || null\<close>.\<close>

definition orElse :: "string option \<Rightarrow> string \<Rightarrow> string" where
  "orElse v d = (if truthy v then the v else d)"

definition orNull :: "string option \<Rightarrow> string option" where
  "orNull v = (if truthy v then v else None)"

text \<open>
  An element of an instance array of the archive: a string, an object (with its \<^verbatim>\<open>ID\<close>
  field when that is a non-empty string), or \<^verbatim>\<open>null\<close>.
\<close>

datatype jsItem = ItemString string | ItemObject "string option" | ItemNull

record studyInfo =
  study_MainDicomTags :: "tags option"
  study_Series :: "string list option"

record seriesData =
  series_MainDicomTags :: "tags option"
  series_Instances :: "jsItem list option"

text \<open>The GET requests the pipeline sends to the archive, by resource path.\<close>

datatype request =
    GetStudy string
  | GetStudyInstances string
  | GetSeries string
  | GetInstance string
  | GetSimplifiedTags string

text \<open>
  A \<^verbatim>\<open>Date\<close>: midnight UTC of a calendar day (year, month, day of the month), or an
  instant by its time value.
\<close>

datatype jsDate = UtcMidnight nat nat nat | Instant nat

text \<open>
  What the pipeline does not decide: the archive's answers (by the number of requests sent
  before, so that an answer may change over time, and by identifier; \<open>Inl\<close> is the message
  of the error axios throws), the faults of the document store and the result cache (by the
  number of store calls made before), the notifier, the clock, \<^verbatim>\<open>Date\<close> parsing (the time
  value and \<^verbatim>\<open>getFullYear()\<close> of a valid date), and mongoose's ObjectIds: which texts
  \<^verbatim>\<open>ObjectId.isValid\<close> accepts, the ObjectId that \<^verbatim>\<open>findById\<close> casts an accepted text to
  (as the text that \<^verbatim>\<open>_id.toString()\<close> gives: the hex digits in lower case), and the
  ObjectIds of new documents.
\<close>

record env =
  getStudy :: "nat \<Rightarrow> string \<Rightarrow> string + studyInfo"
  getStudyInstances :: "nat \<Rightarrow> string \<Rightarrow> string + jsItem list"
  getSeries :: "nat \<Rightarrow> string \<Rightarrow> string + seriesData"
  getInstance :: "nat \<Rightarrow> string \<Rightarrow> string + unit"
  getSimplifiedTags :: "nat \<Rightarrow> string \<Rightarrow> string + tags"
  storeFault :: "nat \<Rightarrow> string option"
  notifyFault :: "string option"
  nowMillis :: nat
  nowISOString :: string
  elapsedMillis :: nat
  parseDate :: "string \<Rightarrow> (nat \<times> nat) option"
  isValidObjectId :: "string \<Rightarrow> bool"
  castObjectId :: "string \<Rightarrow> string"
  newObjectId :: "nat \<Rightarrow> string"

section \<open>Stored documents\<close>

record computedName =
  c_fullName :: string
  c_namePrefix :: string
  c_nameSuffix :: string
  originalDicomName :: string

datatype birthDate = BirthText string | BirthDate "jsDate option"

record patient =
  patient_id :: string
  mrn :: "string option"
  patientID :: string
  patientNameRaw :: string
  p_firstName :: string
  p_lastName :: string
  computed :: "computedName option"
  gender :: string
  dateOfBirth :: birthDate
  isAnonymous :: bool

record labMetadata =
  sourceField :: string
  originalDicomValue :: string
  createdFromStableStudy :: bool
  originalCustomLabId :: "string option"

record lab =
  lab_id :: string
  labName :: string
  lab_identifier :: string
  isActive :: bool
  lab_notes :: string
  contactPerson :: string
  metadata :: "labMetadata option"

record patientInfo =
  pi_patientID :: string
  pi_patientName :: string
  pi_gender :: string
  pi_dateOfBirth :: string

record physician =
  ph_name :: string
  ph_email :: string
  ph_mobile :: string
  ph_institution :: string

record physicians =
  referring :: physician
  requesting :: physician

record technologist =
  tech_name :: string
  tech_mobile :: string
  tech_comments :: string
  reasonToSend :: string

record equipment =
  manufacturer :: string
  model :: string
  stationName :: string
  softwareVersion :: string

record customLabInfo =
  dicomLabId :: "string option"
  labIdSource :: string
  labDetectionMethod :: string

record debugInfo =
  apiInstancesFound :: nat
  webUIShowsInstances :: bool
  apiMethodUsed :: string
  customLabIdProvided :: bool
  customLabIdValue :: "string option"

record storageInfo =
  storageType :: string
  si_orthancStudyId :: string
  receivedAt :: nat
  isStableStudy :: bool
  instancesFound :: nat
  si_processingMethod :: string
  debug :: debugInfo

text \<open>The object \<^verbatim>\<open>studyData\<close> that one ingestion builds, field by field.\<close>

record studyData =
  orthancStudyID :: string
  studyInstanceUID :: string
  accessionNumber :: string
  patientRef :: string
  patientId :: string
  sourceLab :: string
  studyDate :: "jsDate option"
  studyTime :: string
  modalitiesInStudy :: "string list"
  examDescription :: string
  institutionName :: string
  workflowStatus :: string
  seriesCount :: nat
  instanceCount :: nat
  seriesImages :: string
  patientInfo :: patientInfo
  referringPhysicianName :: string
  physicians :: physicians
  technologist :: technologist
  studyPriority :: string
  caseType :: string
  equipment :: equipment
  protocolName :: string
  bodyPartExamined :: string
  contrastBolusAgent :: string
  contrastBolusRoute :: string
  acquisitionDate :: string
  acquisitionTime :: string
  studyComments :: string
  additionalPatientHistory :: string
  customLabInfo :: customLabInfo
  storageInfo :: storageInfo

record statusEntry =
  se_status :: string
  changedAt :: nat
  se_note :: string

text \<open>
  A stored study: the fields of \<^verbatim>\<open>studyData\<close>, the status history, and whatever else the
  document carries that ingestion never writes.
\<close>

record dicomStudy =
  study_id :: string
  studyFields :: studyData
  statusHistory :: "statusEntry list"
  otherFields :: tags

section \<open>Job outcomes and the result cache\<close>

record metadataSummary =
  ms_patientName :: string
  ms_patientId :: string
  ms_modalities :: "string list"
  ms_studyDate :: string
  ms_labName :: string
  ms_institutionName :: string

record result =
  r_orthancStudyId :: string
  studyDatabaseId :: string
  r_studyInstanceUID :: string
  r_seriesCount :: nat
  r_instanceCount :: nat
  processedAt :: nat
  r_elapsedTime :: nat
  r_processingMethod :: string
  summary :: metadataSummary

record errorResult =
  er_error :: string
  er_elapsedTime :: nat
  er_orthancStudyId :: string
  failedAt :: nat

text \<open>
  The cache holds JSON text; an entry is kept as the object the text encodes:
  \<open>Succeeded\<close> has \<^verbatim>\<open>success: true\<close>, \<open>Failure\<close> has \<^verbatim>\<open>success: false\<close>.
\<close>

datatype outcome = Succeeded result | Failure errorResult

record cacheEntry =
  ttl :: nat
  payload :: outcome

section \<open>The world of one pipeline run\<close>

text \<open>
  The document store, the result cache (newest entry first), the archive requests sent so
  far (oldest first), the counters the environment is asked by, the notifications
  delivered, and the \<^verbatim>\<open>progress\<close> field of the job being run.
\<close>

record world =
  patients :: "patient list"
  labs :: "lab list"
  studies :: "dicomStudy list"
  cache :: "(string \<times> cacheEntry) list"
  requests :: "request list"
  storeCalls :: nat
  oidCount :: nat
  notified :: nat
  jobProgress :: nat

text \<open>
  An asynchronous computation either returns a value or throws an error message; the
  world it leaves behind is kept in both cases.
\<close>

type_synonym 'a io = "world \<Rightarrow> (string + 'a) \<times> world"

definition ret :: "'a \<Rightarrow> 'a io" where
  "ret a w = (Inr a, w)"

definition throw :: "string \<Rightarrow> 'a io" where
  "throw e w = (Inl e, w)"

definition andThen :: "'a io \<Rightarrow> ('a \<Rightarrow> 'b io) \<Rightarrow> 'b io" where
  "andThen m f w = (case m w of (Inl e, w') \<Rightarrow> (Inl e, w') | (Inr a, w') \<Rightarrow> f a w')"

definition tryCatch :: "'a io \<Rightarrow> (string \<Rightarrow> 'a io) \<Rightarrow> 'a io" where
  "tryCatch m h w = (case m w of (Inl e, w') \<Rightarrow> h e w' | (Inr a, w') \<Rightarrow> (Inr a, w'))"

text \<open>A call to the document store or the result cache: it is counted, and it may fail.\<close>

definition storeCall :: "env \<Rightarrow> (world \<Rightarrow> 'a \<times> world) \<Rightarrow> 'a io" where
  "storeCall env f w =
     (let w1 = w\<lparr>storeCalls := storeCalls w + 1\<rparr> in
      case storeFault env (storeCalls w) of
        Some msg \<Rightarrow> (Inl msg, w1)
      | None \<Rightarrow> (case f w1 of (a, w2) \<Rightarrow> (Inr a, w2)))"

text \<open>\<^verbatim>\<open>axios.get\<close>: the request is recorded, the archive answers or the call throws.\<close>

definition httpGet :: "(nat \<Rightarrow> string + 'a) \<Rightarrow> request \<Rightarrow> 'a io" where
  "httpGet answer req w =
     (answer (length (requests w)), w\<lparr>requests := requests w @ [req]\<rparr>)"

text \<open>\<^verbatim>\<open>new mongoose.Types.ObjectId().toString()\<close>\<close>

definition freshObjectId :: "env \<Rightarrow> string io" where
  "freshObjectId env w = (Inr (newObjectId env (oidCount w)), w\<lparr>oidCount := oidCount w + 1\<rparr>)"

definition setProgress :: "nat \<Rightarrow> unit io" where
  "setProgress n w = (Inr (), w\<lparr>jobProgress := n\<rparr>)"

text \<open>\<^verbatim>\<open>Model.findOne(filter)\<close>: the first stored document that matches, with its position.\<close>

fun findDoc :: "('a \<Rightarrow> bool) \<Rightarrow> 'a list \<Rightarrow> (nat \<times> 'a) option" where
  "findDoc P [] = None"
| "findDoc P (x # xs) =
     (if P x then Some (0, x)
      else (case findDoc P xs of None \<Rightarrow> None | Some (i, y) \<Rightarrow> Some (Suc i, y)))"

section \<open>Dates\<close>

definition isDigit :: "char \<Rightarrow> bool" where
  "isDigit c = (c \<in> set ''0123456789'')"

definition digitValue :: "char \<Rightarrow> nat" where
  "digitValue c = (case findDoc (\<lambda>d. d = c) ''0123456789'' of Some (i, _) \<Rightarrow> i | None \<Rightarrow> 0)"

text \<open>\<^verbatim>\<open>parseInt\<close> of a string of decimal digits.\<close>

definition parseDigits :: "string \<Rightarrow> nat" where
  "parseDigits s = foldl (\<lambda>n c. 10 * n + digitValue c) 0 s"

definition isLeapYear :: "nat \<Rightarrow> bool" where
  "isLeapYear y = (y mod 4 = 0 \<and> (y mod 100 \<noteq> 0 \<or> y mod 400 = 0))"

definition daysInMonth :: "nat \<Rightarrow> nat \<Rightarrow> nat" where
  "daysInMonth y m =
     (if m = 2 then (if isLeapYear y then 29 else 28)
      else if m = 4 \<or> m = 6 \<or> m = 9 \<or> m = 11 then 30
      else 31)"

text \<open>
  \<^verbatim>\<open>new Date(`${year}-${month}-${day}T00:00:00.000Z`)\<close> for a month from 1 to 12 and a
  day from 1 to 31, as Node reads it: a day past the end of the month counts on into the
  next month (20230231 is the 3rd of March). December has 31 days, so the year stays.
\<close>

definition utcMidnight :: "nat \<Rightarrow> nat \<Rightarrow> nat \<Rightarrow> jsDate" where
  "utcMidnight y m d =
     (if d > daysInMonth y m then UtcMidnight y (m + 1) (d - daysInMonth y m)
      else UtcMidnight y m d)"

text \<open>
  \<^verbatim>\<open>formatDicomDateToISO(dicomDate)\<close>: \<^verbatim>\<open>null\<close> for a missing or empty field, midnight UTC of a
  plausible YYYYMMDD date, else whatever \<^verbatim>\<open>new Date(cleanDate)\<close> parses when its year is
  after 1900, else the current time.
\<close>

definition formatDicomDateToISO :: "env \<Rightarrow> string option \<Rightarrow> jsDate option" where
  "formatDicomDateToISO env dicomDate =
     (if \<not> truthy dicomDate then None
      else
        (let cleanDate = trim (the dicomDate);
             yearNum = parseDigits (take 4 cleanDate);
             monthNum = parseDigits (take 2 (drop 4 cleanDate));
             dayNum = parseDigits (take 2 (drop 6 cleanDate))
         in if length cleanDate = 8 \<and> list_all isDigit cleanDate \<and>
               1900 \<le> yearNum \<and> yearNum \<le> 2100 \<and> 1 \<le> monthNum \<and> monthNum \<le> 12 \<and>
               1 \<le> dayNum \<and> dayNum \<le> 31
            then Some (utcMidnight yearNum monthNum dayNum)
            else (case parseDate env cleanDate of
                    Some (t, fullYear) \<Rightarrow>
                      if fullYear > 1900 then Some (Instant t) else Some (Instant (nowMillis env))
                  | None \<Rightarrow> Some (Instant (nowMillis env)))))"

section \<open>Patient resolution\<close>

definition newPatientID :: "string \<Rightarrow> string" where
  "newPatientID oid = toUpperCase (take 8 oid)"

definition includesCaret :: "string \<Rightarrow> bool" where
  "includesCaret s = (CHR ''^'' \<in> set s)"

definition findPatientByMrn :: "env \<Rightarrow> string option \<Rightarrow> (nat \<times> patient) option io" where
  "findPatientByMrn env m = storeCall env (\<lambda>w. (findDoc (\<lambda>p. mrn p = m) (patients w), w))"

definition insertPatient :: "env \<Rightarrow> patient \<Rightarrow> unit io" where
  "insertPatient env doc = storeCall env (\<lambda>w. ((), w\<lparr>patients := patients w @ [doc]\<rparr>))"

definition savePatientAt :: "env \<Rightarrow> nat \<Rightarrow> patient \<Rightarrow> unit io" where
  "savePatientAt env i doc = storeCall env (\<lambda>w. ((), w\<lparr>patients := (patients w)[i := doc]\<rparr>))"

text \<open>
  \<^verbatim>\<open>findOrCreatePatientFromTags(tags)\<close>. A query \<^verbatim>\<open>{ mrn: undefined }\<close> matches the patients
  that have no mrn.
\<close>

definition findOrCreatePatientFromTags :: "env \<Rightarrow> tags \<Rightarrow> patient io" where
  "findOrCreatePatientFromTags env tags =
     (let patientIdDicom = tag tags ''PatientID'';
          nameInfo = processDicomPersonName (tag tags ''PatientName'');
          patientSex = tag tags ''PatientSex'';
          patientBirthDate = tag tags ''PatientBirthDate''
      in
      if \<not> truthy patientIdDicom \<and> fullName nameInfo = '''' then
        andThen (findPatientByMrn env (Some ''UNKNOWN_STABLE_STUDY'')) (\<lambda>found.
          case found of
            Some (i, unknownPatient) \<Rightarrow> ret unknownPatient
          | None \<Rightarrow>
              andThen (freshObjectId env) (\<lambda>oid.
              andThen (freshObjectId env) (\<lambda>docId.
                let unknownPatient =
                      \<lparr>patient_id = docId, mrn = Some ''UNKNOWN_STABLE_STUDY'',
                       patientID = newPatientID oid,
                       patientNameRaw = ''Unknown Patient (Stable Study)'',
                       p_firstName = '''', p_lastName = '''', computed = None,
                       gender = orElse patientSex '''',
                       dateOfBirth = BirthText (orElse patientBirthDate ''''),
                       isAnonymous = True\<rparr>
                in andThen (insertPatient env unknownPatient) (\<lambda>_. ret unknownPatient))))
      else
        andThen (findPatientByMrn env patientIdDicom) (\<lambda>found.
          case found of
            None \<Rightarrow>
              andThen (freshObjectId env) (\<lambda>oid.
              andThen (freshObjectId env) (\<lambda>docId.
                let patient =
                      \<lparr>patient_id = docId,
                       mrn = Some (orElse patientIdDicom (''ANON_'' @ showNat (nowMillis env))),
                       patientID = newPatientID oid,
                       patientNameRaw = formattedForDisplay nameInfo,
                       p_firstName = firstName nameInfo, p_lastName = lastName nameInfo,
                       computed = Some \<lparr>c_fullName = formattedForDisplay nameInfo,
                                        c_namePrefix = namePrefix nameInfo,
                                        c_nameSuffix = nameSuffix nameInfo,
                                        originalDicomName = originalDicomFormat nameInfo\<rparr>,
                       gender = orElse patientSex '''',
                       dateOfBirth = (if truthy patientBirthDate
                                      then BirthDate (formatDicomDateToISO env patientBirthDate)
                                      else BirthText ''''),
                       isAnonymous = False\<rparr>
                in andThen (insertPatient env patient) (\<lambda>_. ret patient)))
          | Some (i, patient) \<Rightarrow>
              if patientNameRaw patient \<noteq> '''' \<and> includesCaret (patientNameRaw patient) \<and>
                 formattedForDisplay nameInfo \<noteq> '''' \<and>
                 \<not> includesCaret (formattedForDisplay nameInfo)
              then
                (let base = (case computed patient of
                               None \<Rightarrow> \<lparr>c_fullName = '''', c_namePrefix = '''',
                                        c_nameSuffix = '''', originalDicomName = ''''\<rparr>
                             | Some c \<Rightarrow> c);
                     updated = patient
                       \<lparr>patientNameRaw := formattedForDisplay nameInfo,
                        p_firstName := firstName nameInfo,
                        p_lastName := lastName nameInfo,
                        computed := Some (base\<lparr>c_fullName := formattedForDisplay nameInfo,
                                               originalDicomName := originalDicomFormat nameInfo\<rparr>)\<rparr>
                 in andThen (savePatientAt env i updated) (\<lambda>_. ret updated))
              else ret patient))"

section \<open>Lab resolution\<close>

definition DEFAULT_LAB_name :: string where
  "DEFAULT_LAB_name = ''Primary Orthanc Instance (Stable Study)''"

definition DEFAULT_LAB_identifier :: string where
  "DEFAULT_LAB_identifier = ''ORTHANC_STABLE_SOURCE''"

definition findLab :: "env \<Rightarrow> (lab \<Rightarrow> bool) \<Rightarrow> lab option io" where
  "findLab env P = storeCall env (\<lambda>w. (map_option snd (findDoc P (labs w)), w))"

definition insertLab :: "env \<Rightarrow> lab \<Rightarrow> unit io" where
  "insertLab env doc = storeCall env (\<lambda>w. ((), w\<lparr>labs := labs w @ [doc]\<rparr>))"

text \<open>
  The regular expression \<^verbatim>\<open>^name$\<close> with flag \<^verbatim>\<open>i\<close>, the name escaped: the stored name
  equals the given one up to the case of its letters.
\<close>

definition sameNameIgnoringCase :: "string \<Rightarrow> string \<Rightarrow> bool" where
  "sameNameIgnoringCase a b = (toUpperCase a = toUpperCase b)"

text \<open>
  Priority 1, the inner \<^verbatim>\<open>try\<close> block for a custom Lab ID: \<open>Some\<close> lab when the block
  returns one, \<open>None\<close> when control continues to the fallback methods. A lab found by
  its ObjectId is returned only when it is active; an error of the lookup is caught.
  \<^verbatim>\<open>Lab.findById\<close> compares ObjectIds, not texts, so the custom Lab ID is cast first.
\<close>

definition customLabLookup :: "env \<Rightarrow> string \<Rightarrow> lab option io" where
  "customLabLookup env customLabId =
     tryCatch
       (if isValidObjectId env customLabId then
          andThen (findLab env (\<lambda>l. lab_id l = castObjectId env customLabId))
            (\<lambda>labFromCustomId.
            case labFromCustomId of
              Some l \<Rightarrow> if isActive l then ret (Some l) else ret None
            | None \<Rightarrow> ret None)
        else
          andThen (findLab env (\<lambda>l. lab_identifier l = toUpperCase customLabId \<and> isActive l))
            (\<lambda>labByIdentifier. ret labByIdentifier))
       (\<lambda>labLookupError. ret None)"

definition possibleLabSources :: "tags \<Rightarrow> string option list" where
  "possibleLabSources tags =
     [tag tags ''InstitutionName'', tag tags ''StationName'', tag tags ''Manufacturer'',
      tag tags ''ManufacturerModelName'', tag tags ''PerformingPhysicianName'',
      tag tags ''ReferringPhysicianName'']"

definition eligibleSource :: "string option \<Rightarrow> bool" where
  "eligibleSource source = (truthy source \<and> length (trim (the source)) \<ge> 3)"

text \<open>The body of the loop over the possible sources, for the first eligible source.\<close>

definition labFromSource :: "env \<Rightarrow> tags \<Rightarrow> string \<Rightarrow> lab io" where
  "labFromSource env tags source =
     (let customLabId = tag tags ''0011,1010'';
          name = labNameOf source;
          ident = labIdentifierOf source
      in andThen
           (findLab env (\<lambda>l. (sameNameIgnoringCase (labName l) name \<or> lab_identifier l = ident)
                              \<and> isActive l))
           (\<lambda>found.
              case found of
                Some l \<Rightarrow> ret l
              | None \<Rightarrow>
                  andThen (freshObjectId env) (\<lambda>docId.
                    let l = \<lparr>lab_id = docId, labName = name, lab_identifier = ident,
                             isActive = True,
                             lab_notes = ''Auto-created from stable study DICOM tags on '' @
                               nowISOString env @ ''. Original custom Lab ID: '' @
                               orElse customLabId ''Not provided'',
                             contactPerson =
                               orElse (tag tags ''PerformingPhysicianName'')
                                 (orElse (tag tags ''ReferringPhysicianName'') ''''),
                             metadata = Some \<lparr>sourceField = ''InstitutionName'',
                                              originalDicomValue = source,
                                              createdFromStableStudy = True,
                                              originalCustomLabId = orNull customLabId\<rparr>\<rparr>
                    in andThen (insertLab env l) (\<lambda>_. ret l))))"

text \<open>The final fallback: the default lab, looked up by its identifier alone.\<close>

definition defaultLab :: "env \<Rightarrow> tags \<Rightarrow> lab io" where
  "defaultLab env tags =
     andThen (findLab env (\<lambda>l. lab_identifier l = DEFAULT_LAB_identifier)) (\<lambda>found.
       case found of
         Some l \<Rightarrow> ret l
       | None \<Rightarrow>
           andThen (freshObjectId env) (\<lambda>docId.
             let l = \<lparr>lab_id = docId, labName = DEFAULT_LAB_name,
                      lab_identifier = DEFAULT_LAB_identifier, isActive = True,
                      lab_notes = ''Default lab created. Original custom Lab ID: '' @
                        orElse (tag tags ''0011,1010'') ''Not provided'',
                      contactPerson = '''', metadata = None\<rparr>
             in andThen (insertLab env l) (\<lambda>_. ret l)))"

text \<open>The fallback methods: the first eligible source decides, else the default lab.\<close>

definition fallbackLab :: "env \<Rightarrow> tags \<Rightarrow> lab io" where
  "fallbackLab env tags =
     (case find eligibleSource (possibleLabSources tags) of
        Some source \<Rightarrow> labFromSource env tags (the source)
      | None \<Rightarrow> defaultLab env tags)"

definition emergencyLab :: "env \<Rightarrow> tags \<Rightarrow> lab io" where
  "emergencyLab env tags =
     andThen (findLab env (\<lambda>l. isActive l)) (\<lambda>found.
       case found of
         Some l \<Rightarrow> ret l
       | None \<Rightarrow>
           andThen (freshObjectId env) (\<lambda>docId.
             let l = \<lparr>lab_id = docId, labName = ''Emergency Default Lab'',
                      lab_identifier = ''EMERGENCY_DEFAULT'', isActive = True,
                      lab_notes = ''Emergency lab created due to error. Original custom Lab ID: '' @
                        orElse (tag tags ''0011,1010'') ''Not provided'',
                      contactPerson = '''', metadata = None\<rparr>
             in andThen (insertLab env l) (\<lambda>_. ret l)))"

text \<open>The body of the outer \<^verbatim>\<open>try\<close> of \<^verbatim>\<open>findOrCreateSourceLab\<close>.\<close>

definition resolveLabTiers :: "env \<Rightarrow> tags \<Rightarrow> lab io" where
  "resolveLabTiers env tags =
     (let customLabId = tag tags ''0011,1010'' in
      if truthy customLabId \<and> trim (the customLabId) \<noteq> '''' \<and> the customLabId \<noteq> ''UNKNOWN_LAB''
      then andThen (customLabLookup env (the customLabId)) (\<lambda>r.
             case r of
               Some l \<Rightarrow> ret l
             | None \<Rightarrow> fallbackLab env tags)
      else fallbackLab env tags)"

definition findOrCreateSourceLab :: "env \<Rightarrow> tags \<Rightarrow> lab io" where
  "findOrCreateSourceLab env tags =
     tryCatch (resolveLabTiers env tags) (\<lambda>error. emergencyLab env tags)"

section \<open>Jobs\<close>

datatype jobStatus = Waiting | Active | Completed | Failed

record jobData =
  orthancStudyId :: string
  requestId :: string
  submittedAt :: nat
  originalBody :: string

record job =
  job_id :: nat
  jobType :: string
  jobData :: jobData
  status :: jobStatus
  createdAt :: nat
  progress :: nat
  jobResult :: "result option"
  jobError :: "string option"

section \<open>Metadata extraction\<close>

text \<open>A \<^verbatim>\<open>try\<close> block whose \<^verbatim>\<open>catch\<close> only logs: the error becomes a value.\<close>

definition attempt :: "'a io \<Rightarrow> (string + 'a) io" where
  "attempt m w = (case m w of (r, w') \<Rightarrow> (Inr r, w'))"

text \<open>A \<^verbatim>\<open>for ... of\<close> loop that updates local variables.\<close>

fun forEach :: "('s \<Rightarrow> 'a \<Rightarrow> 's io) \<Rightarrow> 'a list \<Rightarrow> 's \<Rightarrow> 's io" where
  "forEach step [] s = ret s"
| "forEach step (x # xs) s = andThen (step s x) (forEach step xs)"

text \<open>The local variables of instance discovery.\<close>

record discovery =
  instancesArray :: "jsItem list"
  firstInstanceId :: "string option"
  foundTags :: tags

text \<open>
  \<^verbatim>\<open>typeof x === 'string' ? x : x.ID || x\<close>. An object without a usable \<^verbatim>\<open>ID\<close> stays an
  object, which is truthy and prints as \<^verbatim>\<open>[object Object]\<close> in a URL; reading \<^verbatim>\<open>ID\<close> of
  \<^verbatim>\<open>null\<close> throws a TypeError.
\<close>

definition firstIdOf :: "jsItem \<Rightarrow> string + string" where
  "firstIdOf x =
     (case x of
        ItemString s \<Rightarrow> Inr s
      | ItemObject i \<Rightarrow> Inr (orElse i ''[object Object]'')
      | ItemNull \<Rightarrow> Inl ''Cannot read properties of null'')"

text \<open>Method 1: the direct instances API.\<close>

definition method1 :: "env \<Rightarrow> string \<Rightarrow> discovery \<Rightarrow> discovery io" where
  "method1 env sid d =
     andThen (attempt (httpGet (\<lambda>n. getStudyInstances env n sid) (GetStudyInstances sid)))
       (\<lambda>r. ret
          (case r of
             Inl instancesError \<Rightarrow> d
           | Inr items \<Rightarrow>
               (let d1 = d\<lparr>instancesArray := items\<rparr> in
                if length items > 0 then
                  (case firstIdOf (hd items) of
                     Inl typeError \<Rightarrow> d1
                   | Inr i \<Rightarrow> d1\<lparr>firstInstanceId := Some i\<rparr>)
                else d1)))"

definition mergeSeriesTags :: "seriesData \<Rightarrow> discovery \<Rightarrow> discovery" where
  "mergeSeriesTags sd d =
     (case series_MainDicomTags sd of
        Some t \<Rightarrow> if foundTags d = [] then d\<lparr>foundTags := spread (foundTags d) t\<rparr> else d
      | None \<Rightarrow> d)"

text \<open>Method 2, the body of the loop for one series.\<close>

definition seriesLookup :: "env \<Rightarrow> discovery \<Rightarrow> string \<Rightarrow> discovery io" where
  "seriesLookup env d seriesId =
     andThen (attempt (httpGet (\<lambda>n. getSeries env n seriesId) (GetSeries seriesId)))
       (\<lambda>r. ret
          (case r of
             Inl seriesError \<Rightarrow> d
           | Inr sd \<Rightarrow>
               (let seriesInstances = (case series_Instances sd of None \<Rightarrow> [] | Some xs \<Rightarrow> xs);
                    d1 = d\<lparr>instancesArray := instancesArray d @ seriesInstances\<rparr>
                in if \<not> truthy (firstInstanceId d1) \<and> length seriesInstances > 0 then
                     (case firstIdOf (hd seriesInstances) of
                        Inl typeError \<Rightarrow> d1
                      | Inr i \<Rightarrow> mergeSeriesTags sd (d1\<lparr>firstInstanceId := Some i\<rparr>))
                   else mergeSeriesTags sd d1)))"

definition seriesOf :: "studyInfo \<Rightarrow> string list" where
  "seriesOf info = (case study_Series info of None \<Rightarrow> [] | Some xs \<Rightarrow> xs)"

definition method2 :: "env \<Rightarrow> studyInfo \<Rightarrow> discovery \<Rightarrow> discovery io" where
  "method2 env info d =
     (if length (instancesArray d) = 0 \<and> length (seriesOf info) > 0
      then forEach (seriesLookup env) (seriesOf info) d
      else ret d)"

text \<open>Method 3, the body of the loop: a series identifier tried as an instance identifier.\<close>

definition probeSeries :: "env \<Rightarrow> discovery \<Rightarrow> string \<Rightarrow> discovery io" where
  "probeSeries env d seriesId =
     andThen (attempt (httpGet (\<lambda>n. getInstance env n seriesId) (GetInstance seriesId)))
       (\<lambda>r. ret
          (case r of
             Inl instanceTestError \<Rightarrow> d
           | Inr _ \<Rightarrow>
               (let d1 = d\<lparr>instancesArray := instancesArray d @ [ItemString seriesId]\<rparr> in
                if \<not> truthy (firstInstanceId d1) then d1\<lparr>firstInstanceId := Some seriesId\<rparr>
                else d1)))"

definition method3 :: "env \<Rightarrow> studyInfo \<Rightarrow> discovery \<Rightarrow> discovery io" where
  "method3 env info d =
     (if length (instancesArray d) = 0 \<and> length (seriesOf info) > 0
      then forEach (probeSeries env) (seriesOf info) d
      else ret d)"

text \<open>The three methods in turn, from empty local variables.\<close>

definition discoverInstances :: "env \<Rightarrow> string \<Rightarrow> studyInfo \<Rightarrow> discovery io" where
  "discoverInstances env sid info =
     andThen (method1 env sid \<lparr>instancesArray = [], firstInstanceId = None, foundTags = []\<rparr>)
       (\<lambda>d1. andThen (method2 env info d1) (\<lambda>d2. method3 env info d2))"

text \<open>The simplified tags of the first instance, merged over the tags found so far.\<close>

definition instanceMetadata :: "env \<Rightarrow> discovery \<Rightarrow> discovery io" where
  "instanceMetadata env d =
     (if truthy (firstInstanceId d) then
        andThen (attempt (httpGet (\<lambda>n. getSimplifiedTags env n (the (firstInstanceId d)))
                           (GetSimplifiedTags (the (firstInstanceId d)))))
          (\<lambda>r. ret (case r of
                      Inl metadataError \<Rightarrow> d
                    | Inr t \<Rightarrow> d\<lparr>foundTags := spread (foundTags d) t\<rparr>))
      else ret d)"

definition todayCompact :: "env \<Rightarrow> string" where
  "todayCompact env = filter (\<lambda>c. c \<noteq> CHR ''-'') (take 10 (nowISOString env))"

text \<open>The two fallbacks: the study-level tags, then minimal placeholder metadata.\<close>

definition fallbackTags :: "env \<Rightarrow> tags \<Rightarrow> string \<Rightarrow> tags \<Rightarrow> tags" where
  "fallbackTags env mainDicomTags uid t =
     (let t1 = (if t = [] \<or> \<not> truthy (tag t ''PatientName'') then spread mainDicomTags t else t)
      in if \<not> truthy (tag t1 ''PatientName'') \<and> \<not> truthy (tag t1 ''PatientID'') then
           spread [(''PatientName'', ''Unknown Patient''),
                   (''PatientID'', ''UNKNOWN_'' @ showNat (nowMillis env)),
                   (''StudyDescription'', ''Unknown Study''),
                   (''StudyInstanceUID'', uid),
                   (''StudyDate'', todayCompact env),
                   (''Modality'', ''UNKNOWN'')] t1
         else t1)"

section \<open>Modalities\<close>

text \<open>\<^verbatim>\<open>Set.prototype.add\<close>, the set kept in insertion order.\<close>

definition setAdd :: "'a \<Rightarrow> 'a list \<Rightarrow> 'a list" where
  "setAdd x xs = (if x \<in> set xs then xs else xs @ [x])"

definition modalityOfSeries :: "env \<Rightarrow> string list \<Rightarrow> string \<Rightarrow> string list io" where
  "modalityOfSeries env ms seriesId =
     andThen (attempt (httpGet (\<lambda>n. getSeries env n seriesId) (GetSeries seriesId)))
       (\<lambda>r. ret
          (case r of
             Inl seriesError \<Rightarrow> ms
           | Inr sd \<Rightarrow>
               (case series_MainDicomTags sd of
                  None \<Rightarrow> ms
                | Some t \<Rightarrow>
                    if truthy (tag t ''Modality'') then setAdd (the (tag t ''Modality'')) ms
                    else ms)))"

definition collectModalities :: "env \<Rightarrow> tags \<Rightarrow> studyInfo \<Rightarrow> string list io" where
  "collectModalities env t info =
     andThen
       (forEach (modalityOfSeries env) (seriesOf info)
          (if truthy (tag t ''Modality'') then [the (tag t ''Modality'')] else []))
       (\<lambda>ms. ret (if length ms = 0 then [''UNKNOWN''] else ms))"

section \<open>The study record of one ingestion\<close>

text \<open>What the pipeline has gathered when it reaches the study record.\<close>

record gathered =
  g_uid :: string
  g_tags :: tags
  g_patient :: patient
  g_lab :: lab
  g_modalities :: "string list"
  g_seriesCount :: nat
  g_instanceCount :: nat

definition ingestionStatus :: "nat \<Rightarrow> string" where
  "ingestionStatus actualInstanceCount =
     (if actualInstanceCount > 0 then ''new_study_received'' else ''new_metadata_only'')"

definition buildStudyData :: "env \<Rightarrow> string \<Rightarrow> gathered \<Rightarrow> studyData" where
  "buildStudyData env sid g =
     (let t = g_tags g;
          patientRecord = g_patient g;
          labRecord = g_lab g;
          actualSeriesCount = g_seriesCount g;
          actualInstanceCount = g_instanceCount g;
          customLabId = tag t ''0011,1010''
      in
      \<lparr>orthancStudyID = sid,
       studyInstanceUID = g_uid g,
       accessionNumber = orElse (tag t ''AccessionNumber'') '''',
       patientRef = patient_id patientRecord,
       patientId = patientID patientRecord,
       sourceLab = lab_id labRecord,
       studyDate = formatDicomDateToISO env (tag t ''StudyDate''),
       studyTime = orElse (tag t ''StudyTime'') '''',
       modalitiesInStudy = g_modalities g,
       examDescription = orElse (tag t ''StudyDescription'') ''Unknown Study'',
       institutionName = orElse (tag t ''InstitutionName'') '''',
       workflowStatus = ingestionStatus actualInstanceCount,
       seriesCount = actualSeriesCount,
       instanceCount = actualInstanceCount,
       seriesImages = showNat actualSeriesCount @ ''/'' @ showNat actualInstanceCount,
       patientInfo =
         \<lparr>pi_patientID = patientID patientRecord,
          pi_patientName = patientNameRaw patientRecord,
          pi_gender = gender patientRecord,
          pi_dateOfBirth = orElse (tag t ''PatientBirthDate'') ''''\<rparr>,
       referringPhysicianName = orElse (tag t ''ReferringPhysicianName'') '''',
       physicians =
         \<lparr>referring =
            \<lparr>ph_name = orElse (tag t ''ReferringPhysicianName'') '''',
             ph_email = '''',
             ph_mobile = orElse (tag t ''ReferringPhysicianTelephoneNumbers'') '''',
             ph_institution = orElse (tag t ''ReferringPhysicianAddress'') ''''\<rparr>,
          requesting =
            \<lparr>ph_name = orElse (tag t ''RequestingPhysician'') '''',
             ph_email = '''',
             ph_mobile = '''',
             ph_institution = orElse (tag t ''RequestingService'') ''''\<rparr>\<rparr>,
       technologist =
         \<lparr>tech_name = orElse (tag t ''OperatorName'')
                        (orElse (tag t ''PerformingPhysicianName'') ''''),
          tech_mobile = '''',
          tech_comments = '''',
          reasonToSend = orElse (tag t ''ReasonForStudy'')
                           (orElse (tag t ''RequestedProcedureDescription'') '''')\<rparr>,
       studyPriority = orElse (tag t ''StudyPriorityID'') ''SELECT'',
       caseType = orElse (tag t ''RequestPriority'') ''routine'',
       equipment =
         \<lparr>manufacturer = orElse (tag t ''Manufacturer'') '''',
          model = orElse (tag t ''ManufacturerModelName'') '''',
          stationName = orElse (tag t ''StationName'') '''',
          softwareVersion = orElse (tag t ''SoftwareVersions'') ''''\<rparr>,
       protocolName = orElse (tag t ''ProtocolName'') '''',
       bodyPartExamined = orElse (tag t ''BodyPartExamined'') '''',
       contrastBolusAgent = orElse (tag t ''ContrastBolusAgent'') '''',
       contrastBolusRoute = orElse (tag t ''ContrastBolusRoute'') '''',
       acquisitionDate = orElse (tag t ''AcquisitionDate'') '''',
       acquisitionTime = orElse (tag t ''AcquisitionTime'') '''',
       studyComments = orElse (tag t ''StudyComments'') '''',
       additionalPatientHistory = orElse (tag t ''AdditionalPatientHistory'') '''',
       customLabInfo =
         \<lparr>dicomLabId = orNull customLabId,
          labIdSource = (if truthy customLabId then ''dicom_custom_tag''
                         else ''fallback_detection''),
          labDetectionMethod =
            (if truthy customLabId \<and> isValidObjectId env (the customLabId)
             then ''mongodb_objectid''
             else if truthy customLabId then ''identifier_lookup''
             else ''dicom_tags_fallback'')\<rparr>,
       storageInfo =
         \<lparr>storageType = ''orthanc'',
          si_orthancStudyId = sid,
          receivedAt = nowMillis env,
          isStableStudy = True,
          instancesFound = actualInstanceCount,
          si_processingMethod = (if actualInstanceCount > 0 then ''with_instances''
                                 else ''metadata_only''),
          debug =
            \<lparr>apiInstancesFound = actualInstanceCount,
             webUIShowsInstances = True,
             apiMethodUsed = (if actualInstanceCount > 0 then ''series_lookup''
                              else ''study_metadata_only''),
             customLabIdProvided = truthy customLabId,
             customLabIdValue = orNull customLabId\<rparr>\<rparr>\<rparr>)"

definition historyNote :: "string \<Rightarrow> gathered \<Rightarrow> string" where
  "historyNote verb g =
     ''Stable study '' @ verb @ '': '' @ showNat (g_seriesCount g) @ '' series, '' @
     showNat (g_instanceCount g) @ '' instances. Lab: '' @ labName (g_lab g) @
     '' (Custom Lab ID: '' @ orElse (tag (g_tags g) ''0011,1010'') ''Not provided'' @ '')''"

definition historyEntry :: "env \<Rightarrow> string \<Rightarrow> studyData \<Rightarrow> gathered \<Rightarrow> statusEntry" where
  "historyEntry env verb sd g =
     \<lparr>se_status = workflowStatus sd, changedAt = nowMillis env, se_note = historyNote verb g\<rparr>"

section \<open>The pipeline\<close>

text \<open>
  The study summary: \<^verbatim>\<open>studyInfo.MainDicomTags?.StudyInstanceUID\<close> is read from it. A failed
  request throws, and so does a summary without a \<^verbatim>\<open>StudyInstanceUID\<close>.
\<close>

definition summaryUID :: "studyInfo \<Rightarrow> string option" where
  "summaryUID info =
     (case study_MainDicomTags info of
        None \<Rightarrow> None
      | Some m \<Rightarrow> tag m ''StudyInstanceUID'')"

definition fetchStudy :: "env \<Rightarrow> string \<Rightarrow> (studyInfo \<times> string) io" where
  "fetchStudy env sid =
     andThen (httpGet (\<lambda>n. getStudy env n sid) (GetStudy sid)) (\<lambda>info.
       if \<not> truthy (summaryUID info) then throw ''StudyInstanceUID not found in stable study''
       else ret (info, the (summaryUID info)))"

definition mainTagsOf :: "studyInfo \<Rightarrow> tags" where
  "mainTagsOf info = (case study_MainDicomTags info of None \<Rightarrow> [] | Some m \<Rightarrow> m)"

text \<open>
  From the start of \<^verbatim>\<open>processStableStudy\<close> to the point where the study is looked up:
  first the study summary, then everything that follows it.
\<close>

definition gatherFrom :: "env \<Rightarrow> string \<Rightarrow> studyInfo \<Rightarrow> string \<Rightarrow> gathered io" where
  "gatherFrom env sid info uid =
     andThen (setProgress 30) (\<lambda>_.
     andThen (discoverInstances env sid info) (\<lambda>d.
     andThen (setProgress 50) (\<lambda>_.
     andThen (instanceMetadata env d) (\<lambda>d'.
     let t = fallbackTags env (mainTagsOf info) uid (foundTags d') in
     andThen (setProgress 60) (\<lambda>_.
     andThen (findOrCreatePatientFromTags env t) (\<lambda>patientRecord.
     andThen (findOrCreateSourceLab env t) (\<lambda>labRecord.
     andThen (setProgress 70) (\<lambda>_.
     andThen (collectModalities env t info) (\<lambda>modalities.
     andThen (setProgress 80) (\<lambda>_.
     ret \<lparr>g_uid = uid, g_tags = t, g_patient = patientRecord, g_lab = labRecord,
          g_modalities = modalities,
          g_seriesCount = length (seriesOf info),
          g_instanceCount = length (instancesArray d')\<rparr>))))))))))"

definition gatherStudy :: "env \<Rightarrow> string \<Rightarrow> gathered io" where
  "gatherStudy env sid =
     andThen (setProgress 10) (\<lambda>_.
     andThen (fetchStudy env sid) (\<lambda>(info, uid). gatherFrom env sid info uid))"

definition findStudy :: "env \<Rightarrow> string \<Rightarrow> (nat \<times> dicomStudy) option io" where
  "findStudy env uid =
     storeCall env (\<lambda>w. (findDoc (\<lambda>s. studyInstanceUID (studyFields s) = uid) (studies w), w))"

definition insertStudy :: "env \<Rightarrow> dicomStudy \<Rightarrow> unit io" where
  "insertStudy env doc = storeCall env (\<lambda>w. ((), w\<lparr>studies := studies w @ [doc]\<rparr>))"

definition saveStudyAt :: "env \<Rightarrow> nat \<Rightarrow> dicomStudy \<Rightarrow> unit io" where
  "saveStudyAt env i doc = storeCall env (\<lambda>w. ((), w\<lparr>studies := (studies w)[i := doc]\<rparr>))"

text \<open>
  The upsert: \<^verbatim>\<open>Object.assign(dicomStudyDoc, studyData)\<close> writes every field of
  \<^verbatim>\<open>studyData\<close>, the workflow status among them, onto the stored document.
\<close>

definition upsertStudy :: "env \<Rightarrow> string \<Rightarrow> gathered \<Rightarrow> dicomStudy io" where
  "upsertStudy env sid g =
     andThen (findStudy env (g_uid g)) (\<lambda>found.
       let sd = buildStudyData env sid g in
       case found of
         Some (i, dicomStudyDoc) \<Rightarrow>
           (let doc = dicomStudyDoc
                  \<lparr>studyFields := sd,
                   statusHistory := statusHistory dicomStudyDoc @ [historyEntry env ''updated'' sd g]\<rparr>
            in andThen (saveStudyAt env i doc) (\<lambda>_. ret doc))
       | None \<Rightarrow>
           andThen (freshObjectId env) (\<lambda>docId.
             let doc = \<lparr>study_id = docId, studyFields = sd,
                        statusHistory = [historyEntry env ''created'' sd g],
                        otherFields = []\<rparr>
             in andThen (insertStudy env doc) (\<lambda>_. ret doc)))"

definition notifySimpleNewStudy :: "env \<Rightarrow> unit io" where
  "notifySimpleNewStudy env w =
     (case notifyFault env of
        None \<Rightarrow> (Inr (), w\<lparr>notified := notified w + 1\<rparr>)
      | Some wsError \<Rightarrow> (Inl wsError, w))"

definition cacheKey :: "string \<Rightarrow> string" where
  "cacheKey rid = ''job:result:'' @ rid"

text \<open>\<^verbatim>\<open>redis.setex(key, 3600, JSON.stringify(value))\<close>\<close>

definition setex :: "env \<Rightarrow> string \<Rightarrow> outcome \<Rightarrow> unit io" where
  "setex env key v =
     storeCall env (\<lambda>w. ((), w\<lparr>cache := (key, \<lparr>ttl = 3600, payload = v\<rparr>) # cache w\<rparr>))"

definition successResult :: "env \<Rightarrow> string \<Rightarrow> gathered \<Rightarrow> dicomStudy \<Rightarrow> result" where
  "successResult env sid g doc =
     \<lparr>r_orthancStudyId = sid,
      studyDatabaseId = study_id doc,
      r_studyInstanceUID = g_uid g,
      r_seriesCount = g_seriesCount g,
      r_instanceCount = g_instanceCount g,
      processedAt = nowMillis env,
      r_elapsedTime = elapsedMillis env,
      r_processingMethod = (if g_instanceCount g > 0 then ''with_instances''
                            else ''metadata_only''),
      summary =
        \<lparr>ms_patientName = patientNameRaw (g_patient g),
         ms_patientId = patientID (g_patient g),
         ms_modalities = g_modalities g,
         ms_studyDate = orElse (tag (g_tags g) ''StudyDate'') ''Unknown'',
         ms_labName = labName (g_lab g),
         ms_institutionName = orElse (tag (g_tags g) ''InstitutionName'') ''Unknown''\<rparr>\<rparr>"

text \<open>
  The body of the \<^verbatim>\<open>try\<close> block of \<^verbatim>\<open>processStableStudy\<close>: gather, upsert, then notify,
  build the result and cache it.
\<close>

definition finishIngest :: "env \<Rightarrow> string \<Rightarrow> string \<Rightarrow> gathered \<Rightarrow> dicomStudy \<Rightarrow> result io" where
  "finishIngest env sid rid g doc =
     andThen (setProgress 90) (\<lambda>_.
     andThen (attempt (notifySimpleNewStudy env)) (\<lambda>_.
     andThen (setProgress 100) (\<lambda>_.
     let r = successResult env sid g doc in
     andThen (setex env (cacheKey rid) (Succeeded r)) (\<lambda>_. ret r))))"

definition ingest :: "env \<Rightarrow> string \<Rightarrow> string \<Rightarrow> result io" where
  "ingest env sid rid =
     andThen (gatherStudy env sid) (\<lambda>g.
     andThen (upsertStudy env sid g) (\<lambda>doc. finishIngest env sid rid g doc))"

definition failureResult :: "env \<Rightarrow> string \<Rightarrow> string \<Rightarrow> errorResult" where
  "failureResult env sid msg =
     \<lparr>er_error = msg, er_elapsedTime = elapsedMillis env, er_orthancStudyId = sid,
      failedAt = nowMillis env\<rparr>"

text \<open>
  \<^verbatim>\<open>processStableStudy(job)\<close>: the \<^verbatim>\<open>catch\<close> block caches the failure and throws the
  error again.
\<close>

definition processStableStudy :: "env \<Rightarrow> job \<Rightarrow> result io" where
  "processStableStudy env j =
     (let sid = orthancStudyId (jobData j); rid = requestId (jobData j) in
      tryCatch (ingest env sid rid)
        (\<lambda>msg. andThen (setex env (cacheKey rid) (Failure (failureResult env sid msg)))
                  (\<lambda>_. throw msg)))"

section \<open>The job queue\<close>

text \<open>
  \<^verbatim>\<open>StableStudyQueue\<close>. The Map of jobs is kept as the list of its values in insertion
  order, the order in which \<^verbatim>\<open>Array.from(this.jobs.values())\<close> lists them.
\<close>

record queue =
  jobs :: "job list"
  processing :: "nat set"
  nextJobId :: nat
  isProcessing :: bool
  concurrency :: nat

definition newQueue :: queue where
  "newQueue = \<lparr>jobs = [], processing = {}, nextJobId = 1, isProcessing = False, concurrency = 10\<rparr>"

definition getWaitingJobs :: "queue \<Rightarrow> job list" where
  "getWaitingJobs q = filter (\<lambda>j. status j = Waiting) (jobs q)"

definition getJob :: "queue \<Rightarrow> nat \<Rightarrow> job option" where
  "getJob q jobId = find (\<lambda>j. job_id j = jobId) (jobs q)"

definition getJobByRequestId :: "queue \<Rightarrow> string \<Rightarrow> job option" where
  "getJobByRequestId q rid = find (\<lambda>j. requestId (jobData j) = rid) (jobs q)"

text \<open>\<^verbatim>\<open>this.jobs.set(jobId, job)\<close>: a new key goes last, a known key keeps its place.\<close>

definition mapSet :: "job \<Rightarrow> job list \<Rightarrow> job list" where
  "mapSet j js =
     (if job_id j \<in> set (map job_id js)
      then map (\<lambda>x. if job_id x = job_id j then j else x) js
      else js @ [j])"

text \<open>An assignment to a field of the job object with the given id.\<close>

definition updateJob :: "nat \<Rightarrow> (job \<Rightarrow> job) \<Rightarrow> queue \<Rightarrow> queue" where
  "updateJob jobId f q = q\<lparr>jobs := map (\<lambda>j. if job_id j = jobId then f j else j) (jobs q)\<rparr>"

text \<open>
  \<^verbatim>\<open>processJob(job)\<close> is called without \<^verbatim>\<open>await\<close>: it runs up to the first \<^verbatim>\<open>await\<close>
  inside \<^verbatim>\<open>processStableStudy\<close>, where the progress is already 10, and goes on when the
  pipeline has settled.
\<close>

definition startJob :: "queue \<Rightarrow> job \<Rightarrow> queue" where
  "startJob q j =
     (updateJob (job_id j) (\<lambda>x. x\<lparr>status := Active, progress := 10\<rparr>) q)
       \<lparr>processing := insert (job_id j) (processing q)\<rparr>"

text \<open>The \<^verbatim>\<open>try\<close>/\<^verbatim>\<open>catch\<close>/\<^verbatim>\<open>finally\<close> of \<^verbatim>\<open>processJob\<close>, once the pipeline has settled.\<close>

definition settleJob :: "nat \<Rightarrow> string + result \<Rightarrow> queue \<Rightarrow> queue" where
  "settleJob jobId r q =
     (case r of
        Inr res \<Rightarrow> updateJob jobId (\<lambda>x. x\<lparr>jobResult := Some res, status := Completed\<rparr>) q
      | Inl msg \<Rightarrow> updateJob jobId (\<lambda>x. x\<lparr>jobError := Some msg, status := Failed\<rparr>) q)
       \<lparr>processing := processing q - {jobId}\<rparr>"

text \<open>The inner loop of \<^verbatim>\<open>startProcessing\<close>: admit waiting jobs while there is room.\<close>

lemma admit_le:
  "length (filter (\<lambda>x. status x = Waiting)
     (map (\<lambda>x. if job_id x = i then x\<lparr>status := Active, progress := 10\<rparr> else x) xs))
   \<le> length (filter (\<lambda>x. status x = Waiting) xs)"
  by (induction xs) auto

lemma admit_less:
  "j \<in> set xs \<Longrightarrow> status j = Waiting \<Longrightarrow>
   length (filter (\<lambda>x. status x = Waiting)
     (map (\<lambda>x. if job_id x = job_id j then x\<lparr>status := Active, progress := 10\<rparr> else x) xs))
   < length (filter (\<lambda>x. status x = Waiting) xs)"
proof (induction xs)
  case Nil
  then show ?case by simp
next
  case (Cons x xs)
  show ?case
  proof (cases "x = j")
    case True
    then show ?thesis using Cons.prems admit_le [of "job_id j" xs] by (simp add: less_Suc_eq_le)
  next
    case False
    then have "j \<in> set xs" using Cons.prems by simp
    from Cons.IH [OF this Cons.prems(2)] show ?thesis by simp
  qed
qed

function admitWaiting :: "queue \<Rightarrow> queue" where
  "admitWaiting q =
     (if card (processing q) < concurrency q \<and> length (getWaitingJobs q) > 0
      then admitWaiting (startJob q (hd (getWaitingJobs q)))
      else q)"
  by pat_completeness auto
termination
proof (relation "measure (\<lambda>q. length (getWaitingJobs q))")
  show "wf (measure (\<lambda>q. length (getWaitingJobs q)))" by simp
next
  fix q :: queue
  assume a: "card (processing q) < concurrency q \<and> 0 < length (getWaitingJobs q)"
  then have "hd (getWaitingJobs q) \<in> set (getWaitingJobs q)" by simp
  then have "hd (getWaitingJobs q) \<in> set (jobs q)" "status (hd (getWaitingJobs q)) = Waiting"
    by (simp_all add: getWaitingJobs_def)
  from admit_less [OF this]
  show "(startJob q (hd (getWaitingJobs q)), q) \<in> measure (\<lambda>q. length (getWaitingJobs q))"
    by (simp add: startJob_def updateJob_def getWaitingJobs_def)
qed

declare admitWaiting.simps [simp del]

text \<open>
  One pass of the outer loop of \<^verbatim>\<open>startProcessing\<close>: when a job waits or runs, admit and
  sleep on the timer; else clear the flag and stop.
\<close>

definition schedulerRound :: "queue \<Rightarrow> queue" where
  "schedulerRound q =
     (if length (getWaitingJobs q) > 0 \<or> card (processing q) > 0 then admitWaiting q
      else q\<lparr>isProcessing := False\<rparr>)"

definition startProcessing :: "queue \<Rightarrow> queue" where
  "startProcessing q = (if isProcessing q then q else schedulerRound (q\<lparr>isProcessing := True\<rparr>))"

text \<open>\<^verbatim>\<open>add(jobData)\<close>: the job it returns is the job object as the call leaves it.\<close>

definition add :: "jobData \<Rightarrow> nat \<Rightarrow> queue \<Rightarrow> job \<times> queue" where
  "add d now q =
     (let jobId = nextJobId q;
          j = \<lparr>job_id = jobId, jobType = ''process-stable-study'', jobData = d,
               status = Waiting, createdAt = now, progress = 0,
               jobResult = None, jobError = None\<rparr>;
          q1 = q\<lparr>nextJobId := jobId + 1, jobs := mapSet j (jobs q)\<rparr>;
          q2 = (if \<not> isProcessing q1 then startProcessing q1 else q1)
      in (case getJob q2 jobId of Some x \<Rightarrow> x | None \<Rightarrow> j, q2))"

text \<open>
  What can happen to the queue, one turn of the event loop each: a call of \<^verbatim>\<open>add\<close> (with
  the clock reading), the scheduler's timer, an assignment to the progress of a running
  job, and the settling of a running job's pipeline with an error message or a result.
\<close>

datatype event =
    Add jobData nat
  | Tick
  | Progress nat nat
  | Settle nat "string + result"

fun step :: "event \<Rightarrow> queue \<Rightarrow> queue" where
  "step (Add d now) q = snd (add d now q)"
| "step Tick q = (if isProcessing q then schedulerRound q else q)"
| "step (Progress jobId n) q =
     (if jobId \<in> processing q then updateJob jobId (\<lambda>x. x\<lparr>progress := n\<rparr>) q else q)"
| "step (Settle jobId r) q = (if jobId \<in> processing q then settleJob jobId r q else q)"

definition run :: "event list \<Rightarrow> queue \<Rightarrow> queue" where
  "run es q = foldl (\<lambda>q' e. step e q') q es"

definition activeJobs :: "queue \<Rightarrow> job list" where
  "activeJobs q = filter (\<lambda>j. status j = Active) (jobs q)"

text \<open>One job run from admission to its end, with nothing else in between.\<close>

definition processJob :: "env \<Rightarrow> job \<Rightarrow> queue \<times> world \<Rightarrow> queue \<times> world" where
  "processJob env j qw =
     (case qw of (q, w) \<Rightarrow>
        (case processStableStudy env j w of (r, w1) \<Rightarrow>
           (settleJob (job_id j) r
              (updateJob (job_id j) (\<lambda>x. x\<lparr>progress := jobProgress w1\<rparr>) (startJob q j)),
            w1)))"

section \<open>Reference definitions\<close>



text \<open>
  The stored study after a re-ingestion and after a first ingestion, as \<^verbatim>\<open>upsertStudy\<close>
  builds them, and the tests for the key of a study (its \<^verbatim>\<open>StudyInstanceUID\<close>, by which
  the pipeline looks it up) and for its external study identifier.
\<close>

definition reingested :: "env \<Rightarrow> string \<Rightarrow> gathered \<Rightarrow> dicomStudy \<Rightarrow> dicomStudy" where
  "reingested env sid g old =
     old\<lparr>studyFields := buildStudyData env sid g,
         statusHistory := statusHistory old @
           [historyEntry env ''updated'' (buildStudyData env sid g) g]\<rparr>"

definition firstIngested :: "env \<Rightarrow> string \<Rightarrow> gathered \<Rightarrow> string \<Rightarrow> dicomStudy" where
  "firstIngested env sid g docId =
     \<lparr>study_id = docId, studyFields = buildStudyData env sid g,
      statusHistory = [historyEntry env ''created'' (buildStudyData env sid g) g],
      otherFields = []\<rparr>"

definition hasUID :: "string \<Rightarrow> dicomStudy \<Rightarrow> bool" where
  "hasUID uid s = (studyInstanceUID (studyFields s) = uid)"

definition hasOrthancId :: "string \<Rightarrow> dicomStudy \<Rightarrow> bool" where
  "hasOrthancId sid s = (orthancStudyID (studyFields s) = sid)"


text \<open>
  An environment without store faults; a computation that always returns; a computation
  whose every run relates the world before to the world after.
\<close>

named_theorems returns_intros

named_theorems frames_intros

definition noFaults :: "env \<Rightarrow> bool" where
  "noFaults env = (\<forall>n. storeFault env n = None)"

definition returns :: "'a io \<Rightarrow> bool" where
  "returns m = (\<forall>w. \<exists>a w'. m w = (Inr a, w'))"

definition frames :: "(world \<Rightarrow> world \<Rightarrow> bool) \<Rightarrow> 'a io \<Rightarrow> bool" where
  "frames R m = (\<forall>w. R w (snd (m w)))"

definition frameRel :: "(world \<Rightarrow> world \<Rightarrow> bool) \<Rightarrow> bool" where
  "frameRel R = ((\<forall>w. R w w) \<and> (\<forall>a b c. R a b \<longrightarrow> R b c \<longrightarrow> R a c))"

definition sameStudies :: "world \<Rightarrow> world \<Rightarrow> bool" where
  "sameStudies w w' = (studies w' = studies w)"

section \<open>Example data\<close>

definition isHexDigit :: "char \<Rightarrow> bool" where
  "isHexDigit c = (c \<in> set ''0123456789abcdefABCDEF'')"

definition lowerHexDigit :: "char \<Rightarrow> char" where
  "lowerHexDigit c = (case map_of (zip ''ABCDEF'' ''abcdef'') c of Some l \<Rightarrow> l | None \<Rightarrow> c)"

definition emptyWorld :: world where
  "emptyWorld = \<lparr>patients = [], labs = [], studies = [], cache = [], requests = [],
                  storeCalls = 0, oidCount = 0, notified = 0, jobProgress = 0\<rparr>"

text \<open>
  An archive that knows the study \<^verbatim>\<open>abc\<close> with the series \<^verbatim>\<open>s1\<close> (two instances) and
  \<^verbatim>\<open>s2\<close> (unreachable), lists no instances for the study directly, and has no faults in
  the store or the notifier.
\<close>

definition exampleEnv :: env where
  "exampleEnv =
     \<lparr>getStudy = (\<lambda>n sid.
        if sid = ''abc''
        then Inr \<lparr>study_MainDicomTags = Some [(''StudyInstanceUID'', ''1.2.3'')],
                  study_Series = Some [''s1'', ''s2'']\<rparr>
        else Inl ''Request failed with status code 404''),
      getStudyInstances = (\<lambda>n sid. Inr []),
      getSeries = (\<lambda>n s.
        if s = ''s1''
        then Inr \<lparr>series_MainDicomTags = Some [(''Modality'', ''CT'')],
                  series_Instances = Some [ItemString ''i1'', ItemString ''i2'']\<rparr>
        else Inl ''timeout of 5000ms exceeded''),
      getInstance = (\<lambda>n s. Inl ''Request failed with status code 404''),
      getSimplifiedTags = (\<lambda>n i.
        Inr [(''PatientName'', ''Doe^John''), (''PatientID'', ''P1''),
             (''InstitutionName'', ''City  Hospital'')]),
      storeFault = (\<lambda>n. None),
      notifyFault = None,
      nowMillis = 1000,
      nowISOString = ''2023-11-14T22:13:20.000Z'',
      elapsedMillis = 42,
      parseDate = (\<lambda>s. None),
      isValidObjectId = (\<lambda>s. length s = 24 \<and> list_all isHexDigit s),
      castObjectId = map lowerHexDigit,
      newObjectId = (\<lambda>n. ''65a0000000000000000000'' @ showNat (n + 10))\<rparr>"

definition sentinelPatient :: patient where
  "sentinelPatient =
     \<lparr>patient_id = ''65a000000000000000000001'', mrn = Some ''UNKNOWN_STABLE_STUDY'',
      patientID = ''65A00000'', patientNameRaw = ''Unknown Patient (Stable Study)'',
      p_firstName = '''', p_lastName = '''', computed = None, gender = '''',
      dateOfBirth = BirthText '''', isAnonymous = True\<rparr>"

definition retiredLab :: lab where
  "retiredLab =
     \<lparr>lab_id = ''65a0000000000000000000aa'', labName = ''Old Lab'',
      lab_identifier = ''OLD_LAB'', isActive = False, lab_notes = '''',
      contactPerson = '''', metadata = None\<rparr>"

definition retiredDefaultLab :: lab where
  "retiredDefaultLab =
     \<lparr>lab_id = ''65a0000000000000000000ab'', labName = DEFAULT_LAB_name,
      lab_identifier = DEFAULT_LAB_identifier, isActive = False, lab_notes = '''',
      contactPerson = '''', metadata = None\<rparr>"

definition exampleJob :: job where
  "exampleJob =
     \<lparr>job_id = 1, jobType = ''process-stable-study'',
      jobData = \<lparr>orthancStudyId = ''abc'', requestId = ''stable_1000_r1'', submittedAt = 1000,
                 originalBody = ''abc''\<rparr>,
      status = Waiting, createdAt = 1000, progress = 0, jobResult = None, jobError = None\<rparr>"

definition assignedWorld :: world where
  "assignedWorld =
     (let w1 = snd (processStableStudy exampleEnv exampleJob emptyWorld) in
      w1\<lparr>studies := map (\<lambda>s. s\<lparr>studyFields := (studyFields s)\<lparr>workflowStatus := ''assigned_to_doctor''\<rparr>\<rparr>)
                          (studies w1)\<rparr>)"


text \<open>The same archive, now listing two instances for the study directly.\<close>

definition listingEnv :: env where
  "listingEnv =
     exampleEnv\<lparr>getStudyInstances :=
       (\<lambda>n sid. Inr [ItemObject (Some ''i1''), ItemObject (Some ''i2'')])\<rparr>"

definition exampleInfo :: studyInfo where
  "exampleInfo = \<lparr>study_MainDicomTags = Some [(''StudyInstanceUID'', ''1.2.3'')],
                   study_Series = Some [''s1'', ''s2'']\<rparr>"

section \<open>The queue's invariant\<close>

text \<open>
  Once a job is waiting, every job after it is waiting: jobs leave the waiting state in
  the order of the list, which is the order of arrival.
\<close>

fun admittedInOrder :: "job list \<Rightarrow> bool" where
  "admittedInOrder [] = True"
| "admittedInOrder (j # js) =
     (if status j = Waiting then list_all (\<lambda>x. status x = Waiting) js else admittedInOrder js)"

definition activeIds :: "job list \<Rightarrow> nat set" where
  "activeIds js = job_id ` {j \<in> set js. status j = Active}"

text \<open>
  What every reachable queue satisfies: the ceiling is 10, the processing set holds the
  ids of the active jobs and at most 10 of them, the ids are 1, 2, ... in the order of
  the list, jobs are admitted in order, and the scheduler is running whenever a job
  waits or runs.
\<close>

definition queueInv :: "queue \<Rightarrow> bool" where
  "queueInv q =
     (concurrency q = 10 \<and> finite (processing q) \<and> card (processing q) \<le> 10 \<and>
      activeIds (jobs q) = processing q \<and>
      map job_id (jobs q) = [1..<nextJobId q] \<and> 1 \<le> nextJobId q \<and>
      admittedInOrder (jobs q) \<and>
      (isProcessing q \<or> (getWaitingJobs q = [] \<and> processing q = {})))"

abbreviation setField :: "nat \<Rightarrow> (job \<Rightarrow> job) \<Rightarrow> job \<Rightarrow> job" where
  "setField i f \<equiv> (\<lambda>x. if job_id x = i then f x else x)"

text \<open>The status that \<^verbatim>\<open>processJob\<close> assigns when the pipeline has thrown or returned.\<close>

definition terminalStatus :: "string + result \<Rightarrow> jobStatus" where
  "terminalStatus r = (case r of Inl msg \<Rightarrow> Failed | Inr res \<Rightarrow> Completed)"

section \<open>Example queues\<close>

text \<open>Thirteen calls of \<^verbatim>\<open>add\<close> in a row, then one round of the scheduler.\<close>

definition burst :: "event list" where
  "burst = map (Add (jobData exampleJob)) [0, 1, 2, 3, 4, 5, 6, 7, 8, 9, 10, 11, 12] @ [Tick]"

text \<open>A job for a study that the example archive does not know, and a queue holding it.\<close>

definition unknownJob :: job where
  "unknownJob = exampleJob\<lparr>jobData := (jobData exampleJob)\<lparr>orthancStudyId := ''zzz''\<rparr>\<rparr>"

text \<open>The example environment with a result cache and a document store that are down.\<close>

definition cacheDownEnv :: env where
  "cacheDownEnv = exampleEnv\<lparr>storeFault := (\<lambda>n. Some ''Connection is closed.'')\<rparr>"

definition unknownQueue :: queue where
  "unknownQueue = newQueue\<lparr>jobs := [unknownJob], nextJobId := 2, isProcessing := True\<rparr>"

section \<open>Person names and lab identifiers\<close>

lemma isWhitespace_toUpperChar [simp]: "isWhitespace (toUpperChar c) = isWhitespace c"
  unfolding isWhitespace_def toUpperChar_def
  by (auto split: option.splits if_splits)

lemma toUpperChar_underscore [simp]: "(toUpperChar c = CHR ''_'') = (c = CHR ''_'')"
  unfolding toUpperChar_def by (auto split: option.splits if_splits)

lemma toUpperChar_space [simp]: "toUpperChar CHR '' '' = CHR '' ''"
  unfolding toUpperChar_def by simp

lemma isWhitespace_space [simp]: "isWhitespace CHR '' ''"
  by (simp add: isWhitespace_def)

lemma not_ws_underscore [simp]: "\<not> isWhitespace CHR ''_''"
  by (simp add: isWhitespace_def)









text \<open>
  Claim C5, as the code has it: the encodings \<^verbatim>\<open>"^"\<close> and \<^verbatim>\<open>"^^^"\<close> give the display name
  "Anonymous Patient", and so does a name of white space only; the empty string is
  stopped by the first guard of \<^verbatim>\<open>processDicomPersonName\<close> and gives "Unknown Patient".
\<close>

theorem empty_name_is_unknown_patient:
  "formattedForDisplay (processDicomPersonName (Some '''')) = ''Unknown Patient'' \<and>
   formattedForDisplay (processDicomPersonName (Some ''^'')) = ''Anonymous Patient'' \<and>
   formattedForDisplay (processDicomPersonName (Some ''^^^'')) = ''Anonymous Patient'' \<and>
   formattedForDisplay (processDicomPersonName (Some ''  '')) = ''Anonymous Patient''"
  by (simp add: processDicomPersonName_def trim_def isWhitespace_def)





section \<open>Patient and lab resolution\<close>

lemma findDoc_sat: "findDoc P xs = Some (i, x) \<Longrightarrow> P x \<and> i < length xs \<and> xs ! i = x"
proof (induction xs arbitrary: i)
  case Nil
  then show ?case by simp
next
  case (Cons y ys)
  then show ?case by (auto split: if_splits option.splits)
qed

lemma findDoc_None: "(findDoc P xs = None) = (\<forall>x\<in>set xs. \<not> P x)"
  by (induction xs) (auto split: option.splits)

text \<open>The display name of a parsed person name is never empty.\<close>

lemma joinWith_nonempty: "xs \<noteq> [] \<Longrightarrow> [] \<notin> set xs \<Longrightarrow> joinWith sep xs \<noteq> []"
  by (induction sep xs rule: joinWith.induct) auto

lemma fullName_nonempty: "fullName (processDicomPersonName f) \<noteq> ''''"
proof -
  have "joinWith '' '' (filter (\<lambda>p. p \<noteq> '''') ps) \<noteq> []" if "filter (\<lambda>p. p \<noteq> '''') ps \<noteq> []" for ps
    using that by (intro joinWith_nonempty) auto
  then show ?thesis
    by (auto simp: processDicomPersonName_def Let_def split: option.splits)
qed

text \<open>
  Claim C3, as the code has it: the sentinel branch of \<^verbatim>\<open>findOrCreatePatientFromTags\<close>
  asks for an empty \<^verbatim>\<open>fullName\<close>, which \<^verbatim>\<open>processDicomPersonName\<close> never returns. For a tag
  set with neither \<^verbatim>\<open>PatientID\<close> nor \<^verbatim>\<open>PatientName\<close>, and a store that already holds the
  sentinel, the code creates a second patient with the mrn \<^verbatim>\<open>ANON_1000\<close> (the clock reads
  1000) and returns it.
\<close>

theorem unidentified_patient_is_created:
  "tag [] ''PatientID'' = None \<and> tag [] ''PatientName'' = None \<and>
   fst (findOrCreatePatientFromTags exampleEnv [] (emptyWorld\<lparr>patients := [sentinelPatient]\<rparr>))
     = Inr \<lparr>patient_id = ''65a000000000000000000011'', mrn = Some ''ANON_1000'',
            patientID = ''65A00000'', patientNameRaw = ''Unknown Patient'',
            p_firstName = '''', p_lastName = ''Unknown'',
            computed = Some \<lparr>c_fullName = ''Unknown Patient'', c_namePrefix = '''',
                             c_nameSuffix = '''', originalDicomName = ''''\<rparr>,
            gender = '''', dateOfBirth = BirthText '''', isAnonymous = False\<rparr> \<and>
   map mrn (patients (snd (findOrCreatePatientFromTags exampleEnv []
                             (emptyWorld\<lparr>patients := [sentinelPatient]\<rparr>))))
     = [Some ''UNKNOWN_STABLE_STUDY'', Some ''ANON_1000'']"
  by code_simp

text \<open>
  Claim C4 as stated fails: the custom Lab ID is the ObjectId of a stored, inactive lab, and
  \<^verbatim>\<open>findOrCreateSourceLab\<close> does not return that lab.
\<close>

theorem inactive_reference_is_not_returned:
  "tag [(''0011,1010'', ''65a0000000000000000000aa'')] ''0011,1010'' = Some (lab_id retiredLab) \<and>
   map_option snd (findDoc (\<lambda>l. lab_id l = castObjectId exampleEnv ''65a0000000000000000000aa'')
                     (labs (emptyWorld\<lparr>labs := [retiredLab]\<rparr>))) = Some retiredLab \<and>
   isActive retiredLab = False \<and>
   fst (findOrCreateSourceLab exampleEnv [(''0011,1010'', ''65a0000000000000000000aa'')]
          (emptyWorld\<lparr>labs := [retiredLab]\<rparr>)) \<noteq> Inr retiredLab"
  by code_simp

lemma labFromSource_active:
  "labFromSource env tags source w = (Inr l, w') \<Longrightarrow> isActive l"
  unfolding labFromSource_def Let_def andThen_def findLab_def storeCall_def ret_def
            freshObjectId_def insertLab_def
  by (auto split: option.splits sum.splits prod.splits dest!: findDoc_sat)

text \<open>
  Claim C4, amended: when the custom Lab ID of the tag set is the ObjectId of a stored lab
  that is inactive, the direct-reference tier does not return that lab; resolution goes on
  with the fallback methods (and, on an error, the emergency lab) as it does when the
  reference resolves to nothing. The heuristic tier returns active labs only, and the
  default tier returns the lab with the default identifier whether it is active or not.
\<close>

theorem inactive_reference_falls_through:
  assumes "tag tags ''0011,1010'' = Some cid"
    and "trim cid \<noteq> ''''" and "cid \<noteq> ''UNKNOWN_LAB''"
    and "isValidObjectId env cid"
    and "map_option snd (findDoc (\<lambda>l. lab_id l = castObjectId env cid) (labs w)) = Some l"
    and "\<not> isActive l"
  shows "findOrCreateSourceLab env tags w
           = tryCatch (fallbackLab env tags) (\<lambda>e. emergencyLab env tags)
               (w\<lparr>storeCalls := storeCalls w + 1\<rparr>) \<and>
         (\<forall>source w0 l' w1. labFromSource env tags source w0 = (Inr l', w1) \<longrightarrow> isActive l') \<and>
         (\<forall>w0 i d. findDoc (\<lambda>x. lab_identifier x = DEFAULT_LAB_identifier) (labs w0) = Some (i, d)
                    \<and> storeFault env (storeCalls w0) = None
                    \<longrightarrow> fst (defaultLab env tags w0) = Inr d)"
proof (intro conjI allI impI)
  have ne: "cid \<noteq> ''''" using assms(2) by (auto simp: trim_def)
  show "findOrCreateSourceLab env tags w
           = tryCatch (fallbackLab env tags) (\<lambda>e. emergencyLab env tags)
               (w\<lparr>storeCalls := storeCalls w + 1\<rparr>)"
  proof -
    from assms(5) obtain i
      where fd: "findDoc (\<lambda>l. lab_id l = castObjectId env cid) (labs w) = Some (i, l)"
      by auto
    show ?thesis
      using assms(1,3,4,6) ne assms(2) fd
      unfolding findOrCreateSourceLab_def resolveLabTiers_def customLabLookup_def
      by (cases "storeFault env (storeCalls w)")
         (simp_all add: Let_def truthy_def tryCatch_def andThen_def findLab_def storeCall_def
                        ret_def)
  qed
next
  fix source and w0 w1 :: world and l'
  assume "labFromSource env tags source w0 = (Inr l', w1)"
  then show "isActive l'" by (rule labFromSource_active)
next
  fix w0 :: world and i d
  assume "findDoc (\<lambda>x. lab_identifier x = DEFAULT_LAB_identifier) (labs w0) = Some (i, d)
          \<and> storeFault env (storeCalls w0) = None"
  then show "fst (defaultLab env tags w0) = Inr d"
    by (simp add: defaultLab_def andThen_def findLab_def storeCall_def ret_def)
qed

theorem inactive_reference_falls_through_witness:
  "findOrCreateSourceLab exampleEnv [(''0011,1010'', ''65a0000000000000000000aa'')]
     (emptyWorld\<lparr>labs := [retiredLab, retiredDefaultLab]\<rparr>)
   = tryCatch (fallbackLab exampleEnv [(''0011,1010'', ''65a0000000000000000000aa'')])
       (\<lambda>e. emergencyLab exampleEnv [(''0011,1010'', ''65a0000000000000000000aa'')])
       (emptyWorld\<lparr>labs := [retiredLab, retiredDefaultLab], storeCalls := 1\<rparr>) \<and>
   fst (findOrCreateSourceLab exampleEnv [(''0011,1010'', ''65a0000000000000000000aa'')]
     (emptyWorld\<lparr>labs := [retiredLab, retiredDefaultLab]\<rparr>)) = Inr retiredDefaultLab"
proof -
  have a: "tag [(''0011,1010'', ''65a0000000000000000000aa'')] ''0011,1010''
             = Some ''65a0000000000000000000aa''"
    by (simp add: tag_def)
  have b: "trim ''65a0000000000000000000aa'' \<noteq> ''''" by code_simp
  have c: "''65a0000000000000000000aa'' \<noteq> ''UNKNOWN_LAB''" by simp
  have d: "isValidObjectId exampleEnv ''65a0000000000000000000aa''" by code_simp
  have e: "map_option snd
             (findDoc (\<lambda>l. lab_id l = castObjectId exampleEnv ''65a0000000000000000000aa'')
              (labs (emptyWorld\<lparr>labs := [retiredLab, retiredDefaultLab]\<rparr>))) = Some retiredLab"
    by code_simp
  have f: "\<not> isActive retiredLab" by (simp add: retiredLab_def)
  have g: "fst (tryCatch (fallbackLab exampleEnv [(''0011,1010'', ''65a0000000000000000000aa'')])
       (\<lambda>e. emergencyLab exampleEnv [(''0011,1010'', ''65a0000000000000000000aa'')])
       (emptyWorld\<lparr>labs := [retiredLab, retiredDefaultLab], storeCalls := 1\<rparr>)) = Inr retiredDefaultLab"
    by code_simp
  from inactive_reference_falls_through [OF a b c d e f] g
  show ?thesis by (simp add: emptyWorld_def)
qed

section \<open>The pipeline\<close>

lemma returns_ret [returns_intros]: "returns (ret a)"
  by (simp add: returns_def ret_def)

lemma returns_setProgress [returns_intros]: "returns (setProgress n)"
  by (simp add: returns_def setProgress_def)

lemma returns_freshObjectId [returns_intros]: "returns (freshObjectId env)"
  by (simp add: returns_def freshObjectId_def)

lemma returns_attempt [returns_intros]: "returns (attempt m)"
  by (simp add: returns_def attempt_def split: prod.splits)

lemma returns_andThen [returns_intros]:
  "returns m \<Longrightarrow> (\<And>a. returns (f a)) \<Longrightarrow> returns (andThen m f)"
  unfolding returns_def andThen_def
  by (metis (mono_tags, lifting) case_prod_conv sum.case(2))

lemma returns_tryCatch [returns_intros]: "(\<And>e. returns (h e)) \<Longrightarrow> returns (tryCatch m h)"
  unfolding returns_def tryCatch_def
  by (auto split: prod.splits sum.splits)

lemma returns_forEach [returns_intros]:
  "(\<And>s x. returns (body s x)) \<Longrightarrow> returns (forEach body xs s)"
  by (induction xs arbitrary: s) (auto intro: returns_andThen returns_ret)

lemma returns_storeCall [returns_intros]: "noFaults env \<Longrightarrow> returns (storeCall env f)"
  by (auto simp: returns_def storeCall_def noFaults_def Let_def split: prod.splits)

lemma frames_ret [frames_intros]: "frameRel R \<Longrightarrow> frames R (ret a)"
  by (simp add: frames_def ret_def frameRel_def)

lemma frames_throw [frames_intros]: "frameRel R \<Longrightarrow> frames R (throw e)"
  by (simp add: frames_def throw_def frameRel_def)

lemma frames_andThen [frames_intros]:
  "frameRel R \<Longrightarrow> frames R m \<Longrightarrow> (\<And>a. frames R (f a)) \<Longrightarrow> frames R (andThen m f)"
  unfolding frames_def andThen_def frameRel_def
  by (auto split: prod.splits sum.splits) (metis snd_conv)+

lemma frames_tryCatch [frames_intros]:
  "frameRel R \<Longrightarrow> frames R m \<Longrightarrow> (\<And>e. frames R (h e)) \<Longrightarrow> frames R (tryCatch m h)"
  unfolding frames_def tryCatch_def frameRel_def
  by (auto split: prod.splits sum.splits) (metis snd_conv)+

lemma frames_attempt [frames_intros]: "frames R m \<Longrightarrow> frames R (attempt m)"
  unfolding frames_def attempt_def by (auto split: prod.splits) (metis snd_conv)

lemma frames_forEach [frames_intros]:
  "frameRel R \<Longrightarrow> (\<And>s x. frames R (body s x)) \<Longrightarrow> frames R (forEach body xs s)"
  by (induction xs arbitrary: s) (auto intro: frames_andThen frames_ret)

lemma frameRel_sameStudies [frames_intros]: "frameRel sameStudies"
  by (simp add: frameRel_def sameStudies_def)

lemma frames_setProgress [frames_intros]: "frames sameStudies (setProgress n)"
  by (simp add: frames_def setProgress_def sameStudies_def)

lemma frames_freshObjectId [frames_intros]: "frames sameStudies (freshObjectId env)"
  by (simp add: frames_def freshObjectId_def sameStudies_def)

lemma frames_httpGet [frames_intros]: "frames sameStudies (httpGet answer req)"
  by (simp add: frames_def httpGet_def sameStudies_def)

lemma frames_storeCall [frames_intros]:
  "(\<And>w. studies (snd (f w)) = studies w) \<Longrightarrow> frames sameStudies (storeCall env f)"
  by (auto simp: frames_def storeCall_def sameStudies_def Let_def split: option.splits prod.splits)
     (metis snd_conv world.select_convs(3) world.surjective world.update_convs(6))

lemma returns_if [returns_intros]:
  "returns a \<Longrightarrow> returns b \<Longrightarrow> returns (if c then a else b)"
  by simp

lemma returns_case_option [returns_intros]:
  "returns a \<Longrightarrow> (\<And>x. returns (f x)) \<Longrightarrow> returns (case v of None \<Rightarrow> a | Some x \<Rightarrow> f x)"
  by (simp split: option.splits)

lemma returns_case_prod [returns_intros]:
  "(\<And>x y. returns (f x y)) \<Longrightarrow> returns (case p of (x, y) \<Rightarrow> f x y)"
  by (simp split: prod.splits)

lemma frames_if [frames_intros]:
  "frames R a \<Longrightarrow> frames R b \<Longrightarrow> frames R (if c then a else b)"
  by simp

lemma frames_case_option [frames_intros]:
  "frames R a \<Longrightarrow> (\<And>x. frames R (f x)) \<Longrightarrow> frames R (case v of None \<Rightarrow> a | Some x \<Rightarrow> f x)"
  by (simp split: option.splits)

lemma frames_case_prod [frames_intros]:
  "(\<And>x y. frames R (f x y)) \<Longrightarrow> frames R (case p of (x, y) \<Rightarrow> f x y)"
  by (simp split: prod.splits)

lemma patient_returns [returns_intros]:
  "noFaults env \<Longrightarrow> returns (findOrCreatePatientFromTags env t)"
  unfolding findOrCreatePatientFromTags_def findPatientByMrn_def insertPatient_def
            savePatientAt_def Let_def
  by (intro returns_intros)

lemma patient_frames [frames_intros]: "frames sameStudies (findOrCreatePatientFromTags env t)"
  unfolding findOrCreatePatientFromTags_def findPatientByMrn_def insertPatient_def
            savePatientAt_def Let_def
  by (intro frames_intros) simp_all

lemma returns_case_sum [returns_intros]:
  "(\<And>x. returns (f x)) \<Longrightarrow> (\<And>y. returns (g y)) \<Longrightarrow>
   returns (case v of Inl x \<Rightarrow> f x | Inr y \<Rightarrow> g y)"
  by (simp split: sum.splits)

lemma frames_case_sum [frames_intros]:
  "(\<And>x. frames R (f x)) \<Longrightarrow> (\<And>y. frames R (g y)) \<Longrightarrow>
   frames R (case v of Inl x \<Rightarrow> f x | Inr y \<Rightarrow> g y)"
  by (simp split: sum.splits)

lemma lab_returns [returns_intros]:
  "noFaults env \<Longrightarrow> returns (findOrCreateSourceLab env t)"
  unfolding findOrCreateSourceLab_def emergencyLab_def findLab_def insertLab_def Let_def
  by (intro returns_intros)

lemma lab_frames [frames_intros]: "frames sameStudies (findOrCreateSourceLab env t)"
  unfolding findOrCreateSourceLab_def resolveLabTiers_def customLabLookup_def fallbackLab_def
            labFromSource_def defaultLab_def emergencyLab_def findLab_def insertLab_def Let_def
  by (intro frames_intros) simp_all

lemma discover_returns [returns_intros]: "returns (discoverInstances env sid info)"
  unfolding discoverInstances_def method1_def method2_def method3_def seriesLookup_def
            probeSeries_def
  by (intro returns_intros)

lemma discover_frames [frames_intros]: "frames sameStudies (discoverInstances env sid info)"
  unfolding discoverInstances_def method1_def method2_def method3_def seriesLookup_def
            probeSeries_def
  by (intro frames_intros)

lemma metadata_returns [returns_intros]: "returns (instanceMetadata env d)"
  unfolding instanceMetadata_def by (intro returns_intros)

lemma metadata_frames [frames_intros]: "frames sameStudies (instanceMetadata env d)"
  unfolding instanceMetadata_def by (intro frames_intros)

lemma modalities_returns [returns_intros]: "returns (collectModalities env t info)"
  unfolding collectModalities_def modalityOfSeries_def by (intro returns_intros)

lemma modalities_frames [frames_intros]: "frames sameStudies (collectModalities env t info)"
  unfolding collectModalities_def modalityOfSeries_def by (intro frames_intros)

lemma gatherFrom_returns: "noFaults env \<Longrightarrow> returns (gatherFrom env sid info uid)"
  unfolding gatherFrom_def Let_def by (intro returns_intros)

lemma gatherFrom_frames: "frames sameStudies (gatherFrom env sid info uid)"
  unfolding gatherFrom_def Let_def by (intro frames_intros)

lemma gatherFrom_uid:
  "gatherFrom env sid info uid w = (Inr g, w') \<Longrightarrow> g_uid g = uid"
  unfolding gatherFrom_def Let_def andThen_def ret_def
  by (auto split: prod.splits sum.splits)

text \<open>A run that gets its study summary gathers everything and leaves the studies alone.\<close>

lemma gatherStudy_ok:
  assumes "noFaults env"
    and "getStudy env (length (requests w)) sid = Inr info"
    and "summaryUID info = Some uid" and "uid \<noteq> ''''"
  shows "\<exists>g w1. gatherStudy env sid w = (Inr g, w1) \<and> studies w1 = studies w \<and> g_uid g = uid"
proof -
  let ?w2 = "w\<lparr>jobProgress := 10, requests := requests w @ [GetStudy sid]\<rparr>"
  have eq: "gatherStudy env sid w = gatherFrom env sid info uid ?w2"
    using assms
    by (simp add: gatherStudy_def andThen_def setProgress_def fetchStudy_def httpGet_def
                  truthy_def ret_def)
  from gatherFrom_returns [OF assms(1), of sid info uid]
  obtain g w1 where r: "gatherFrom env sid info uid ?w2 = (Inr g, w1)"
    unfolding returns_def by blast
  have "sameStudies ?w2 (snd (gatherFrom env sid info uid ?w2))"
    using gatherFrom_frames [of env sid info uid] unfolding frames_def by blast
  then have "studies w1 = studies w" using r by (simp add: sameStudies_def)
  moreover have "g_uid g = uid" using r by (rule gatherFrom_uid)
  ultimately show ?thesis using eq r by simp
qed

lemma finishIngest_ok:
  assumes "noFaults env"
  shows "\<exists>w'. finishIngest env sid rid g doc w = (Inr (successResult env sid g doc), w')
              \<and> studies w' = studies w"
proof -
  have "notifySimpleNewStudy env w0 = (r, w1) \<Longrightarrow> studies w1 = studies w0" for w0 r w1
    by (auto simp: notifySimpleNewStudy_def split: option.splits)
  then show ?thesis
    using assms
    unfolding finishIngest_def Let_def andThen_def setProgress_def attempt_def setex_def
              storeCall_def ret_def noFaults_def
    by (auto split: prod.splits sum.splits)
qed

lemma upsert_known:
  assumes "noFaults env"
    and "findDoc (hasUID (g_uid g)) (studies w) = Some (i, old)"
  shows "\<exists>w'. upsertStudy env sid g w = (Inr (reingested env sid g old), w')
               \<and> studies w' = (studies w)[i := reingested env sid g old]"
  using assms
  unfolding upsertStudy_def findStudy_def saveStudyAt_def Let_def andThen_def storeCall_def
            ret_def noFaults_def reingested_def hasUID_def
  by simp

lemma upsert_new:
  assumes "noFaults env"
    and "findDoc (hasUID (g_uid g)) (studies w) = None"
  shows "\<exists>w'. upsertStudy env sid g w
                 = (Inr (firstIngested env sid g (newObjectId env (oidCount w))), w')
               \<and> studies w' = studies w @ [firstIngested env sid g (newObjectId env (oidCount w))]"
  using assms
  unfolding upsertStudy_def findStudy_def insertStudy_def Let_def andThen_def storeCall_def
            ret_def noFaults_def firstIngested_def hasUID_def freshObjectId_def
  by simp

lemma run_ok:
  assumes nf: "noFaults env"
    and gs: "getStudy env (length (requests w)) (orthancStudyId (jobData j)) = Inr info"
    and su: "summaryUID info = Some uid" and ne: "uid \<noteq> ''''"
  shows "\<exists>g w1 r w'.
           gatherStudy env (orthancStudyId (jobData j)) w = (Inr g, w1) \<and> g_uid g = uid \<and>
           processStableStudy env j w = (Inr r, w') \<and>
           (case findDoc (hasUID uid) (studies w) of
              Some (i, old) \<Rightarrow>
                studies w' = (studies w)[i := reingested env (orthancStudyId (jobData j)) g old]
            | None \<Rightarrow>
                studies w' = studies w @
                  [firstIngested env (orthancStudyId (jobData j)) g (newObjectId env (oidCount w1))])"
proof -
  let ?sid = "orthancStudyId (jobData j)"
  let ?rid = "requestId (jobData j)"
  from gatherStudy_ok [OF nf gs su ne]
  obtain g w1 where g: "gatherStudy env ?sid w = (Inr g, w1)"
    and st: "studies w1 = studies w" and gu: "g_uid g = uid" by blast
  show ?thesis
  proof (cases "findDoc (hasUID uid) (studies w)")
    case None
    then have "findDoc (hasUID (g_uid g)) (studies w1) = None" using st gu by simp
    from upsert_new [OF nf this, of ?sid]
    obtain w2 where u: "upsertStudy env ?sid g w1
                          = (Inr (firstIngested env ?sid g (newObjectId env (oidCount w1))), w2)"
      and s2: "studies w2 = studies w1 @ [firstIngested env ?sid g (newObjectId env (oidCount w1))]"
      by blast
    from finishIngest_ok [OF nf, of ?sid ?rid g _ w2]
    obtain w3 where f: "finishIngest env ?sid ?rid g
                          (firstIngested env ?sid g (newObjectId env (oidCount w1))) w2
                        = (Inr (successResult env ?sid g
                                 (firstIngested env ?sid g (newObjectId env (oidCount w1)))), w3)"
      and s3: "studies w3 = studies w2" by blast
    have "processStableStudy env j w
            = (Inr (successResult env ?sid g
                      (firstIngested env ?sid g (newObjectId env (oidCount w1)))), w3)"
      using g u f
      by (simp add: processStableStudy_def Let_def tryCatch_def ingest_def andThen_def)
    then show ?thesis using g gu None s2 s3 st by simp
  next
    case (Some p)
    obtain i old where p: "p = (i, old)" by (cases p)
    have "findDoc (hasUID (g_uid g)) (studies w1) = Some (i, old)" using Some p st gu by simp
    from upsert_known [OF nf this, of ?sid]
    obtain w2 where u: "upsertStudy env ?sid g w1 = (Inr (reingested env ?sid g old), w2)"
      and s2: "studies w2 = (studies w1)[i := reingested env ?sid g old]"
      by blast
    from finishIngest_ok [OF nf, of ?sid ?rid g _ w2]
    obtain w3 where f: "finishIngest env ?sid ?rid g (reingested env ?sid g old) w2
                        = (Inr (successResult env ?sid g (reingested env ?sid g old)), w3)"
      and s3: "studies w3 = studies w2" by blast
    have "processStableStudy env j w
            = (Inr (successResult env ?sid g (reingested env ?sid g old)), w3)"
      using g u f
      by (simp add: processStableStudy_def Let_def tryCatch_def ingest_def andThen_def)
    then show ?thesis using g gu Some p s2 s3 st by simp
  qed
qed

text \<open>
  Claim C1, amended: for every already-persisted study, whatever its workflow status, a
  re-ingestion of the same study identifier that runs to its end overwrites the
  denormalized metadata fields of that aggregate and its workflow status with them: the
  status becomes \<^verbatim>\<open>new_study_received\<close> when an instance was found and
  \<^verbatim>\<open>new_metadata_only\<close> when none was. One entry is appended to the status history; the
  identity of the document and its other fields stay.
\<close>

theorem reingestion_resets_workflow_status:
  assumes "noFaults env"
    and "getStudy env (length (requests w)) (orthancStudyId (jobData j)) = Inr info"
    and "summaryUID info = Some uid" and "uid \<noteq> ''''"
    and "findDoc (hasUID uid) (studies w) = Some (i, old)"
  shows "\<exists>g r w'.
           fst (gatherStudy env (orthancStudyId (jobData j)) w) = Inr g \<and>
           processStableStudy env j w = (Inr r, w') \<and>
           studies w' = (studies w)[i := reingested env (orthancStudyId (jobData j)) g old] \<and>
           studyFields (reingested env (orthancStudyId (jobData j)) g old)
             = buildStudyData env (orthancStudyId (jobData j)) g \<and>
           workflowStatus (studyFields (reingested env (orthancStudyId (jobData j)) g old))
             = (if g_instanceCount g > 0 then ''new_study_received'' else ''new_metadata_only'') \<and>
           statusHistory (reingested env (orthancStudyId (jobData j)) g old)
             = statusHistory old @
                 [historyEntry env ''updated'' (buildStudyData env (orthancStudyId (jobData j)) g) g] \<and>
           study_id (reingested env (orthancStudyId (jobData j)) g old) = study_id old \<and>
           otherFields (reingested env (orthancStudyId (jobData j)) g old) = otherFields old"
proof -
  from run_ok [OF assms(1-4)] assms(5)
  obtain g w1 r w' where
    "gatherStudy env (orthancStudyId (jobData j)) w = (Inr g, w1)"
    "processStableStudy env j w = (Inr r, w')"
    "studies w' = (studies w)[i := reingested env (orthancStudyId (jobData j)) g old]"
    by auto
  then show ?thesis
    by (auto simp: reingested_def buildStudyData_def Let_def ingestionStatus_def)
qed









lemma hasOrthancId_reingested [simp]: "hasOrthancId sid (reingested env sid g old)"
  by (simp add: hasOrthancId_def reingested_def buildStudyData_def Let_def)

lemma hasOrthancId_firstIngested [simp]: "hasOrthancId sid (firstIngested env sid g docId)"
  by (simp add: hasOrthancId_def firstIngested_def buildStudyData_def Let_def)




text \<open>
  Claim C1 as stated fails: a stored study whose status has progressed to
  \<^verbatim>\<open>assigned_to_doctor\<close> is back at \<^verbatim>\<open>new_study_received\<close> after a re-ingestion.
\<close>

theorem reingestion_downgrades_status:
  "map (studyInstanceUID \<circ> studyFields) (studies assignedWorld) = [''1.2.3''] \<and>
   map (workflowStatus \<circ> studyFields) (studies assignedWorld) = [''assigned_to_doctor''] \<and>
   map (studyInstanceUID \<circ> studyFields)
     (studies (snd (processStableStudy exampleEnv exampleJob assignedWorld))) = [''1.2.3''] \<and>
   map (workflowStatus \<circ> studyFields)
     (studies (snd (processStableStudy exampleEnv exampleJob assignedWorld)))
     = [''new_study_received'']"
  by code_simp

text \<open>The re-ingestion of the study \<^verbatim>\<open>abc\<close> after its assignment to a doctor.\<close>

theorem reingestion_resets_workflow_status_witness:
  "findDoc (hasUID ''1.2.3'') (studies assignedWorld) = Some (0, hd (studies assignedWorld)) \<and>
   workflowStatus (studyFields (hd (studies assignedWorld))) = ''assigned_to_doctor'' \<and>
   (\<exists>g r w'.
       fst (gatherStudy exampleEnv (orthancStudyId (jobData exampleJob)) assignedWorld) = Inr g \<and>
       processStableStudy exampleEnv exampleJob assignedWorld = (Inr r, w') \<and>
       studies w' = (studies assignedWorld)
          [0 := reingested exampleEnv (orthancStudyId (jobData exampleJob)) g
                  (hd (studies assignedWorld))] \<and>
       workflowStatus (studyFields (reingested exampleEnv (orthancStudyId (jobData exampleJob)) g
                  (hd (studies assignedWorld))))
         = (if g_instanceCount g > 0 then ''new_study_received'' else ''new_metadata_only''))"
proof -
  have a: "noFaults exampleEnv" by (simp add: noFaults_def exampleEnv_def)
  have b: "getStudy exampleEnv (length (requests assignedWorld))
             (orthancStudyId (jobData exampleJob))
           = Inr \<lparr>study_MainDicomTags = Some [(''StudyInstanceUID'', ''1.2.3'')],
                  study_Series = Some [''s1'', ''s2'']\<rparr>"
    by (simp add: exampleEnv_def exampleJob_def)
  have c: "summaryUID \<lparr>study_MainDicomTags = Some [(''StudyInstanceUID'', ''1.2.3'')],
                        study_Series = Some [''s1'', ''s2'']\<rparr> = Some ''1.2.3''"
    by (simp add: summaryUID_def tag_def)
  have d: "''1.2.3'' \<noteq> ''''" by simp
  have e: "findDoc (hasUID ''1.2.3'') (studies assignedWorld) = Some (0, hd (studies assignedWorld))"
    by code_simp
  have f: "workflowStatus (studyFields (hd (studies assignedWorld))) = ''assigned_to_doctor''"
    by code_simp
  from reingestion_resets_workflow_status [OF a b c d e] e f
  show ?thesis by blast
qed

text \<open>
  Claim C7: when the direct instance listing returns at least one instance, instance
  discovery sends that one request and no other, the instances recorded are those of
  the listing, and the series-by-series lookup and the probing of series identifiers are
  both skipped. (The series are read again later, for their modalities.)
\<close>

theorem direct_listing_ends_discovery:
  assumes "getStudyInstances env (length (requests w)) sid = Inr items"
    and "length items > 0"
  shows "\<exists>d. discoverInstances env sid info w
               = (Inr d, w\<lparr>requests := requests w @ [GetStudyInstances sid]\<rparr>) \<and>
             instancesArray d = items \<and>
             method2 env info d = ret d \<and> method3 env info d = ret d"
  using assms
  unfolding discoverInstances_def method1_def
  by (cases "firstIdOf (hd items)")
     (simp_all add: andThen_def attempt_def httpGet_def ret_def method2_def method3_def)

theorem direct_listing_ends_discovery_witness:
  "getStudyInstances listingEnv (length (requests emptyWorld)) ''abc''
     = Inr [ItemObject (Some ''i1''), ItemObject (Some ''i2'')] \<and>
   (\<exists>d. discoverInstances listingEnv ''abc'' exampleInfo emptyWorld
           = (Inr d, emptyWorld\<lparr>requests := requests emptyWorld @ [GetStudyInstances ''abc'']\<rparr>) \<and>
         instancesArray d = [ItemObject (Some ''i1''), ItemObject (Some ''i2'')] \<and>
         method2 listingEnv exampleInfo d = ret d \<and> method3 listingEnv exampleInfo d = ret d)"
proof -
  have a: "getStudyInstances listingEnv (length (requests emptyWorld)) ''abc''
             = Inr [ItemObject (Some ''i1''), ItemObject (Some ''i2'')]"
    by (simp add: listingEnv_def)
  have b: "length [ItemObject (Some ''i1''), ItemObject (Some ''i2'')] > 0" by simp
  from direct_listing_ends_discovery [OF a b, of exampleInfo] a show ?thesis by blast
qed

lemma instanceMetadata_keeps:
  "instanceMetadata env d w = (Inr d', w') \<Longrightarrow> instancesArray d' = instancesArray d"
  unfolding instanceMetadata_def andThen_def attempt_def ret_def
  by (auto split: if_splits prod.splits sum.splits)

lemma gatherFrom_count:
  assumes "gatherFrom env sid info uid w = (Inr g, w')"
  shows "\<exists>d w1 d' w2. discoverInstances env sid info (w\<lparr>jobProgress := 30\<rparr>) = (Inr d, w1) \<and>
           instanceMetadata env d (w1\<lparr>jobProgress := 50\<rparr>) = (Inr d', w2) \<and>
           g_instanceCount g = length (instancesArray d')"
  using assms
  unfolding gatherFrom_def Let_def andThen_def ret_def setProgress_def
  by (auto split: prod.splits sum.splits)

section \<open>A job whose study summary cannot be read\<close>


lemma find_updated:
  "(\<And>x. job_id (f x) = job_id x) \<Longrightarrow>
   find (\<lambda>x. job_id x = i) (map (\<lambda>x. if job_id x = i then f x else x) xs)
     = map_option f (find (\<lambda>x. job_id x = i) xs)"
  by (induction xs) auto

lemma getJob_updateJob:
  "(\<And>x. job_id (f x) = job_id x) \<Longrightarrow>
   getJob (updateJob i f q) i = map_option f (getJob q i)"
  by (simp add: getJob_def updateJob_def find_updated)

lemma getJob_processing [simp]: "getJob (q\<lparr>processing := p\<rparr>) i = getJob q i"
  by (simp add: getJob_def)

lemma updateJob_processing [simp]:
  "updateJob i f (q\<lparr>processing := p\<rparr>) = (updateJob i f q)\<lparr>processing := p\<rparr>"
  by (simp add: updateJob_def)

lemma processing_updateJob [simp]: "processing (updateJob i f q) = processing q"
  by (simp add: updateJob_def)

text \<open>The end of a job that is run alone, in terms of what its pipeline did.\<close>

lemma processJob_failed:
  assumes "processStableStudy env j w = (Inl e, w')" and "getJob q (job_id j) = Some j"
  shows "\<exists>j'. getJob (fst (processJob env j (q, w))) (job_id j) = Some j' \<and>
              status j' = Failed \<and> jobError j' = Some e \<and> jobResult j' = jobResult j \<and>
              job_id j \<notin> processing (fst (processJob env j (q, w)))"
  using assms
  by (simp add: processJob_def settleJob_def startJob_def getJob_updateJob)

lemma processJob_completed:
  assumes "processStableStudy env j w = (Inr r, w')" and "getJob q (job_id j) = Some j"
  shows "\<exists>j'. getJob (fst (processJob env j (q, w))) (job_id j) = Some j' \<and>
              status j' = Completed \<and> jobResult j' = Some r \<and> jobError j' = jobError j \<and>
              job_id j \<notin> processing (fst (processJob env j (q, w)))"
  using assms
  by (simp add: processJob_def settleJob_def startJob_def getJob_updateJob)

lemma summary_failure:
  assumes "getStudy env (length (requests w)) sid = Inl msg \<or>
           (\<exists>info. getStudy env (length (requests w)) sid = Inr info \<and>
                   \<not> truthy (summaryUID info) \<and>
                   msg = ''StudyInstanceUID not found in stable study'')"
  shows "ingest env sid rid w
           = (Inl msg, w\<lparr>jobProgress := 10, requests := requests w @ [GetStudy sid]\<rparr>)"
  using assms
  by (auto simp: ingest_def gatherStudy_def fetchStudy_def andThen_def setProgress_def
                 httpGet_def throw_def)

text \<open>
  Claim C8 as stated fails: the archive does not know the study and the result cache is
  down. The job is Failed, but the message recorded on it is that of the cache, and no
  outcome is written into the cache.
\<close>

theorem cache_fault_hides_summary_failure:
  "getStudy cacheDownEnv 0 (orthancStudyId (jobData unknownJob))
     = Inl ''Request failed with status code 404'' \<and>
   getJob unknownQueue (job_id unknownJob) = Some unknownJob \<and>
   fst (processStableStudy cacheDownEnv unknownJob emptyWorld) = Inl ''Connection is closed.'' \<and>
   cache (snd (processStableStudy cacheDownEnv unknownJob emptyWorld)) = [] \<and>
   map status (jobs (fst (processJob cacheDownEnv unknownJob (unknownQueue, emptyWorld))))
     = [Failed] \<and>
   map jobError (jobs (fst (processJob cacheDownEnv unknownJob (unknownQueue, emptyWorld))))
     = [Some ''Connection is closed.'']"
  by code_simp

text \<open>
  Claim C8, amended: when the first request for the study summary fails, or the summary
  has no StudyInstanceUID, the pipeline sends no other request to the archive and leaves
  the patients, labs and studies as they are; the job is marked Failed with an error
  message recorded on it and its id leaves the processing set. When the result cache
  accepts the write, that message is the one of the failure and the failure outcome is
  stored under the key of the job's request id for 3600 seconds; when the cache write
  fails, the message is the one of the cache and nothing is stored.
\<close>

theorem summary_failure_fails_job:
  assumes "getStudy env (length (requests w)) (orthancStudyId (jobData j)) = Inl msg \<or>
           (\<exists>info. getStudy env (length (requests w)) (orthancStudyId (jobData j)) = Inr info \<and>
                   \<not> truthy (summaryUID info) \<and>
                   msg = ''StudyInstanceUID not found in stable study'')"
    and "getJob q (job_id j) = Some j"
  shows "\<exists>e w'.
           processStableStudy env j w = (Inl e, w') \<and>
           requests w' = requests w @ [GetStudy (orthancStudyId (jobData j))] \<and>
           patients w' = patients w \<and> labs w' = labs w \<and> studies w' = studies w \<and>
           (\<exists>j'. getJob (fst (processJob env j (q, w))) (job_id j) = Some j' \<and>
                 status j' = Failed \<and> jobError j' = Some e \<and> jobResult j' = jobResult j) \<and>
           job_id j \<notin> processing (fst (processJob env j (q, w))) \<and>
           (case storeFault env (storeCalls w) of
              None \<Rightarrow>
                e = msg \<and>
                cache w' = (cacheKey (requestId (jobData j)),
                            \<lparr>ttl = 3600,
                             payload = Failure (failureResult env (orthancStudyId (jobData j)) msg)\<rparr>)
                           # cache w
            | Some fault \<Rightarrow> e = fault \<and> cache w' = cache w)"
proof -
  let ?sid = "orthancStudyId (jobData j)"
  let ?rid = "requestId (jobData j)"
  let ?w1 = "w\<lparr>jobProgress := 10, requests := requests w @ [GetStudy ?sid]\<rparr>"
  have ing: "ingest env ?sid ?rid w = (Inl msg, ?w1)"
    using assms(1) by (rule summary_failure)
  show ?thesis
  proof (cases "storeFault env (storeCalls w)")
    case None
    let ?w2 = "?w1\<lparr>storeCalls := storeCalls w + 1,
                    cache := (cacheKey ?rid, \<lparr>ttl = 3600,
                              payload = Failure (failureResult env ?sid msg)\<rparr>) # cache w\<rparr>"
    have p: "processStableStudy env j w = (Inl msg, ?w2)"
      using ing None
      by (simp add: processStableStudy_def Let_def tryCatch_def andThen_def setex_def
                    storeCall_def throw_def)
    from processJob_failed [OF p assms(2)] p None show ?thesis by auto
  next
    case (Some fault)
    let ?w2 = "?w1\<lparr>storeCalls := storeCalls w + 1\<rparr>"
    have p: "processStableStudy env j w = (Inl fault, ?w2)"
      using ing Some
      by (simp add: processStableStudy_def Let_def tryCatch_def andThen_def setex_def
                    storeCall_def throw_def)
    from processJob_failed [OF p assms(2)] p Some show ?thesis by auto
  qed
qed

theorem summary_failure_fails_job_witness:
  "getStudy exampleEnv 0 ''zzz'' = Inl ''Request failed with status code 404'' \<and>
   getJob unknownQueue 1 = Some unknownJob \<and>
   (\<exists>w'. processStableStudy exampleEnv unknownJob emptyWorld
            = (Inl ''Request failed with status code 404'', w') \<and>
          requests w' = [GetStudy ''zzz''] \<and>
          patients w' = [] \<and> labs w' = [] \<and> studies w' = [] \<and>
          cache w' = [(''job:result:stable_1000_r1'',
                       \<lparr>ttl = 3600,
                        payload = Failure \<lparr>er_error = ''Request failed with status code 404'',
                                           er_elapsedTime = 42, er_orthancStudyId = ''zzz'',
                                           failedAt = 1000\<rparr>\<rparr>)]) \<and>
   (\<exists>j'. getJob (fst (processJob exampleEnv unknownJob (unknownQueue, emptyWorld))) 1 = Some j' \<and>
         status j' = Failed \<and> jobError j' = Some ''Request failed with status code 404'') \<and>
   1 \<notin> processing (fst (processJob exampleEnv unknownJob (unknownQueue, emptyWorld)))"
proof -
  have sid: "orthancStudyId (jobData unknownJob) = ''zzz''"
    and rid: "requestId (jobData unknownJob) = ''stable_1000_r1''"
    and jid: "job_id unknownJob = 1"
    by (simp_all add: unknownJob_def exampleJob_def)
  have h: "getStudy exampleEnv 0 ''zzz'' = Inl ''Request failed with status code 404''"
    by (simp add: exampleEnv_def)
  have g: "getJob unknownQueue 1 = Some unknownJob"
    by (simp add: unknownQueue_def getJob_def jid)
  have f: "storeFault exampleEnv 0 = None" by (simp add: exampleEnv_def)
  have v: "failureResult exampleEnv ''zzz'' ''Request failed with status code 404''
             = \<lparr>er_error = ''Request failed with status code 404'',
                er_elapsedTime = 42, er_orthancStudyId = ''zzz'', failedAt = 1000\<rparr>"
    by (simp add: failureResult_def exampleEnv_def)
  have w: "requests emptyWorld = []" "patients emptyWorld = []" "labs emptyWorld = []"
    "studies emptyWorld = []" "cache emptyWorld = []" "storeCalls emptyWorld = 0"
    by (simp_all add: emptyWorld_def)
  from summary_failure_fails_job
         [of exampleEnv emptyWorld unknownJob "''Request failed with status code 404''"
             unknownQueue]
  show ?thesis
    unfolding sid rid jid w using h g f v
    by (auto simp: cacheKey_def)
qed

section \<open>The queue: ceiling, order of admission, and the end of a job\<close>

lemma all_waiting_in_order: "list_all (\<lambda>x. status x = Waiting) js \<Longrightarrow> admittedInOrder js"
  by (induction js) auto

lemma ids_setField: "(\<And>x. job_id (f x) = job_id x) \<Longrightarrow> map job_id (map (setField i f) js) = map job_id js"
  by (induction js) auto

lemma setField_absent: "i \<notin> job_id ` set js \<Longrightarrow> map (setField i f) js = js"
  by (induction js) auto

lemma order_after_admit:
  assumes "admittedInOrder js" and "distinct (map job_id js)"
    and "filter (\<lambda>x. status x = Waiting) js \<noteq> []"
    and "\<And>x. status (f x) \<noteq> Waiting"
  shows "admittedInOrder
           (map (setField (job_id (hd (filter (\<lambda>x. status x = Waiting) js))) f) js)"
  using assms(1-3)
proof (induction js)
  case Nil
  then show ?case by simp
next
  case (Cons x xs)
  show ?case
  proof (cases "status x = Waiting")
    case True
    then have all: "list_all (\<lambda>x. status x = Waiting) xs" using Cons.prems(1) by simp
    have "job_id x \<notin> job_id ` set xs" using Cons.prems(2) by auto
    then have "map (setField (job_id x) f) xs = xs" by (rule setField_absent)
    then show ?thesis using True all assms(4) by (simp add: all_waiting_in_order)
  next
    case False
    then have ne: "filter (\<lambda>x. status x = Waiting) xs \<noteq> []" using Cons.prems(3) by simp
    then have "hd (filter (\<lambda>x. status x = Waiting) xs) \<in> set xs"
      by (metis filter_is_subset hd_in_set subsetD)
    then have "job_id x \<noteq> job_id (hd (filter (\<lambda>x. status x = Waiting) xs))"
      using Cons.prems(2) by auto
    moreover have "admittedInOrder xs" using Cons.prems(1) False by simp
    moreover have "distinct (map job_id xs)" using Cons.prems(2) by simp
    ultimately show ?thesis using Cons.IH ne False by simp
  qed
qed

lemma order_after_update:
  assumes "admittedInOrder js"
    and "\<forall>x\<in>set js. job_id x = i \<longrightarrow> status x \<noteq> Waiting"
    and "\<And>x. status x \<noteq> Waiting \<Longrightarrow> status (f x) \<noteq> Waiting"
  shows "admittedInOrder (map (setField i f) js)"
  using assms(1,2)
proof (induction js)
  case Nil
  then show ?case by simp
next
  case (Cons x xs)
  show ?case
  proof (cases "status x = Waiting")
    case True
    then have all: "list_all (\<lambda>x. status x = Waiting) xs" using Cons.prems(1) by simp
    then have "\<forall>y\<in>set xs. job_id y \<noteq> i" using Cons.prems(2) by (auto simp: list_all_iff)
    then have "i \<notin> job_id ` set xs" by auto
    then have "map (setField i f) xs = xs" by (rule setField_absent)
    moreover have "job_id x \<noteq> i" using True Cons.prems(2) by auto
    ultimately show ?thesis using True all by simp
  next
    case False
    then show ?thesis using Cons assms(3) by auto
  qed
qed

lemma activeIds_Nil [simp]: "activeIds [] = {}"
  by (simp add: activeIds_def)

lemma activeIds_Cons [simp]:
  "activeIds (x # xs) = (if status x = Active then insert (job_id x) (activeIds xs) else activeIds xs)"
  by (auto simp: activeIds_def)

lemma activeIds_subset: "activeIds js \<subseteq> job_id ` set js"
  by (auto simp: activeIds_def)

lemma activeIds_admit_if:
  assumes "\<And>x. status (f x) = Active" and "\<And>x. job_id (f x) = job_id x"
  shows "activeIds (map (setField i f) js)
           = (if i \<in> job_id ` set js then insert i (activeIds js) else activeIds js)"
  by (induction js) (auto simp: assms)

lemma activeIds_admit:
  assumes "i \<in> job_id ` set js" and "\<And>x. status (f x) = Active" and "\<And>x. job_id (f x) = job_id x"
  shows "activeIds (map (setField i f) js) = insert i (activeIds js)"
  using assms(1) activeIds_admit_if [of f i js, OF assms(2,3)] by simp

lemma activeIds_retire:
  assumes "\<And>x. status (f x) \<noteq> Active" and "\<And>x. job_id (f x) = job_id x"
  shows "activeIds (map (setField i f) js) = activeIds js - {i}"
  by (induction js) (auto simp: assms)

lemma activeIds_keep:
  assumes "\<And>x. status (f x) = status x" and "\<And>x. job_id (f x) = job_id x"
  shows "activeIds (map (setField i f) js) = activeIds js"
  by (induction js) (auto simp: assms)

lemma activeIds_append [simp]: "activeIds (xs @ ys) = activeIds xs \<union> activeIds ys"
  by (auto simp: activeIds_def)

lemma order_append_waiting:
  "admittedInOrder js \<Longrightarrow> status j = Waiting \<Longrightarrow> admittedInOrder (js @ [j])"
  by (induction js) auto

lemma active_of_id:
  assumes "distinct (map job_id js)" and "i \<in> activeIds js" and "x \<in> set js" and "job_id x = i"
  shows "status x = Active"
proof -
  from assms(2) obtain y where y: "y \<in> set js" "status y = Active" "job_id y = i"
    by (auto simp: activeIds_def)
  have "inj_on job_id (set js)" using assms(1) by (simp add: distinct_map)
  then have "x = y" using assms(3,4) y by (auto dest: inj_onD)
  then show ?thesis using y by simp
qed

lemma ids_distinct: "map job_id js = [1..<n] \<Longrightarrow> distinct (map job_id js)"
  by simp

lemma hd_waiting_in_jobs:
  "getWaitingJobs q \<noteq> [] \<Longrightarrow>
   hd (getWaitingJobs q) \<in> set (jobs q) \<and> status (hd (getWaitingJobs q)) = Waiting"
  unfolding getWaitingJobs_def
  by (metis (mono_tags, lifting) hd_in_set mem_Collect_eq set_filter)

lemma inv_startJob:
  assumes inv: "queueInv q" and run: "isProcessing q"
    and room: "card (processing q) < concurrency q" and w: "getWaitingJobs q \<noteq> []"
  shows "queueInv (startJob q (hd (getWaitingJobs q))) \<and>
         isProcessing (startJob q (hd (getWaitingJobs q)))"
proof -
  let ?j = "hd (getWaitingJobs q)"
  let ?f = "\<lambda>x. x\<lparr>status := Active, progress := 10\<rparr>"
  let ?js = "map (setField (job_id ?j) ?f) (jobs q)"
  have j: "?j \<in> set (jobs q)" using hd_waiting_in_jobs [OF w] by simp
  have c: "concurrency q = 10" and fin: "finite (processing q)"
    and p: "activeIds (jobs q) = processing q"
    and ids: "map job_id (jobs q) = [1..<nextJobId q]" and n: "1 \<le> nextJobId q"
    and ord: "admittedInOrder (jobs q)"
    using inv unfolding queueInv_def by blast+
  have d: "distinct (map job_id (jobs q))" using ids by simp
  have 1: "activeIds ?js = insert (job_id ?j) (activeIds (jobs q))"
    using j by (intro activeIds_admit) auto
  have 2: "map job_id ?js = map job_id (jobs q)" by (intro ids_setField) simp
  have 3: "admittedInOrder ?js"
    using order_after_admit [OF ord d, of ?f] w by (simp add: getWaitingJobs_def)
  have 4: "card (insert (job_id ?j) (processing q)) \<le> 10"
    using room c fin by (simp add: card_insert_if)
  show ?thesis
    using c fin p ids n run 1 2 3 4
    by (simp add: queueInv_def startJob_def updateJob_def)
qed

lemma admitWaiting_go:
  assumes "card (processing q) < concurrency q \<and> length (getWaitingJobs q) > 0"
  shows "admitWaiting q = admitWaiting (startJob q (hd (getWaitingJobs q)))"
  by (subst admitWaiting.simps) (simp only: assms if_True simp_thms)

lemma admitWaiting_stop:
  assumes "\<not> (card (processing q) < concurrency q \<and> length (getWaitingJobs q) > 0)"
  shows "admitWaiting q = q"
  by (subst admitWaiting.simps) (simp only: assms if_False)

lemma inv_admitWaiting:
  "queueInv q \<Longrightarrow> isProcessing q \<Longrightarrow>
   queueInv (admitWaiting q) \<and> isProcessing (admitWaiting q)"
proof (induction q rule: admitWaiting.induct)
  case (1 q)
  show ?case
  proof (cases "card (processing q) < concurrency q \<and> length (getWaitingJobs q) > 0")
    case True
    then have s: "queueInv (startJob q (hd (getWaitingJobs q))) \<and>
                  isProcessing (startJob q (hd (getWaitingJobs q)))"
      using inv_startJob [OF "1.prems"] by simp
    have "admitWaiting q = admitWaiting (startJob q (hd (getWaitingJobs q)))"
      using True by (rule admitWaiting_go)
    then show ?thesis using "1.IH" [OF True] s by simp
  next
    case False
    then have "admitWaiting q = q" by (rule admitWaiting_stop)
    then show ?thesis using "1.prems" by simp
  qed
qed

lemma inv_set_running: "queueInv q \<Longrightarrow> queueInv (q\<lparr>isProcessing := True\<rparr>)"
  by (simp add: queueInv_def getWaitingJobs_def)

lemma inv_schedulerRound:
  assumes "queueInv q" and "isProcessing q"
  shows "queueInv (schedulerRound q)"
proof (cases "length (getWaitingJobs q) > 0 \<or> card (processing q) > 0")
  case True
  then show ?thesis using inv_admitWaiting [OF assms] by (simp add: schedulerRound_def)
next
  case False
  then have "getWaitingJobs q = []" and "processing q = {}"
    using assms(1) by (auto simp: queueInv_def)
  then show ?thesis
    using assms(1) False by (simp add: schedulerRound_def queueInv_def getWaitingJobs_def)
qed

lemma mapSet_fresh: "job_id j \<notin> set (map job_id js) \<Longrightarrow> mapSet j js = js @ [j]"
  by (simp add: mapSet_def)

lemma inv_add: assumes "queueInv q" shows "queueInv (snd (add d now q))"
proof -
  let ?j = "\<lparr>job_id = nextJobId q, jobType = ''process-stable-study'', jobData = d,
             status = Waiting, createdAt = now, progress = 0,
             jobResult = None, jobError = None\<rparr>"
  let ?q1 = "q\<lparr>nextJobId := nextJobId q + 1, jobs := jobs q @ [?j]\<rparr>"
  have ids: "map job_id (jobs q) = [1..<nextJobId q]" and n: "1 \<le> nextJobId q"
    using assms unfolding queueInv_def by blast+
  have "job_id ?j \<notin> set (map job_id (jobs q))" using ids by simp
  then have ms: "mapSet ?j (jobs q) = jobs q @ [?j]" by (rule mapSet_fresh)
  have core: "isProcessing q \<Longrightarrow> queueInv ?q1"
    using assms n by (simp add: queueInv_def order_append_waiting)
  have core': "queueInv (?q1\<lparr>isProcessing := True\<rparr>)"
    using assms n by (simp add: queueInv_def order_append_waiting)
  show ?thesis
  proof (cases "isProcessing q")
    case True
    then show ?thesis using core ms by (simp add: add_def Let_def)
  next
    case False
    have "queueInv (schedulerRound (?q1\<lparr>isProcessing := True\<rparr>))"
      using core' by (intro inv_schedulerRound) simp_all
    then show ?thesis using False ms by (simp add: add_def Let_def startProcessing_def)
  qed
qed

lemma inv_settle:
  assumes "queueInv q" and "i \<in> processing q"
  shows "queueInv (settleJob i r q)"
proof -
  have c: "concurrency q = 10" and fin: "finite (processing q)" and le: "card (processing q) \<le> 10"
    and p: "activeIds (jobs q) = processing q"
    and ids: "map job_id (jobs q) = [1..<nextJobId q]" and n: "1 \<le> nextJobId q"
    and ord: "admittedInOrder (jobs q)"
    and live: "isProcessing q \<or> (getWaitingJobs q = [] \<and> processing q = {})"
    using assms(1) unfolding queueInv_def by blast+
  have d: "distinct (map job_id (jobs q))" using ids by simp
  have run: "isProcessing q" using live assms(2) by auto
  have nw: "\<forall>x\<in>set (jobs q). job_id x = i \<longrightarrow> status x \<noteq> Waiting"
    using active_of_id [OF d] assms(2) p by fastforce
  have card: "card (processing q - {i}) \<le> 10"
    using le fin by (meson card_Diff1_le le_trans)
  show ?thesis
  proof (cases r)
    case (Inl msg)
    let ?f = "\<lambda>x. x\<lparr>jobError := Some msg, status := Failed\<rparr>"
    have 1: "activeIds (map (setField i ?f) (jobs q)) = activeIds (jobs q) - {i}"
      by (intro activeIds_retire) simp_all
    have 2: "map job_id (map (setField i ?f) (jobs q)) = map job_id (jobs q)"
      by (intro ids_setField) simp
    have 3: "admittedInOrder (map (setField i ?f) (jobs q))"
      using ord nw by (intro order_after_update) simp_all
    show ?thesis
      using Inl c fin p ids n run 1 2 3 card
      by (simp add: queueInv_def settleJob_def updateJob_def)
  next
    case (Inr res)
    let ?f = "\<lambda>x. x\<lparr>jobResult := Some res, status := Completed\<rparr>"
    have 1: "activeIds (map (setField i ?f) (jobs q)) = activeIds (jobs q) - {i}"
      by (intro activeIds_retire) simp_all
    have 2: "map job_id (map (setField i ?f) (jobs q)) = map job_id (jobs q)"
      by (intro ids_setField) simp
    have 3: "admittedInOrder (map (setField i ?f) (jobs q))"
      using ord nw by (intro order_after_update) simp_all
    show ?thesis
      using Inr c fin p ids n run 1 2 3 card
      by (simp add: queueInv_def settleJob_def updateJob_def)
  qed
qed

lemma inv_progress:
  assumes "queueInv q" and "i \<in> processing q"
  shows "queueInv (updateJob i (\<lambda>x. x\<lparr>progress := n\<rparr>) q)"
proof -
  let ?f = "\<lambda>x. x\<lparr>progress := n\<rparr>"
  have p: "activeIds (jobs q) = processing q"
    and ids: "map job_id (jobs q) = [1..<nextJobId q]"
    and ord: "admittedInOrder (jobs q)"
    and live: "isProcessing q \<or> (getWaitingJobs q = [] \<and> processing q = {})"
    using assms(1) unfolding queueInv_def by blast+
  have d: "distinct (map job_id (jobs q))" using ids by simp
  have run: "isProcessing q" using live assms(2) by auto
  have nw: "\<forall>x\<in>set (jobs q). job_id x = i \<longrightarrow> status x \<noteq> Waiting"
    using active_of_id [OF d] assms(2) p by fastforce
  have 1: "activeIds (map (setField i ?f) (jobs q)) = activeIds (jobs q)"
    by (intro activeIds_keep) simp_all
  have 2: "map job_id (map (setField i ?f) (jobs q)) = map job_id (jobs q)"
    by (intro ids_setField) simp
  have 3: "admittedInOrder (map (setField i ?f) (jobs q))"
    using ord nw by (intro order_after_update) simp_all
  show ?thesis
    using assms(1) run 1 2 3 by (simp add: queueInv_def updateJob_def)
qed

lemma inv_step: "queueInv q \<Longrightarrow> queueInv (step e q)"
  by (cases e) (auto simp: inv_add inv_settle inv_progress inv_schedulerRound)

lemma inv_run: "queueInv q \<Longrightarrow> queueInv (run es q)"
  unfolding run_def by (induction es arbitrary: q) (auto simp: inv_step)

lemma inv_newQueue: "queueInv newQueue"
  by (simp add: queueInv_def newQueue_def getWaitingJobs_def)

lemma filter_length_card:
  "distinct (map f xs) \<Longrightarrow> length (filter P xs) = card (f ` {x \<in> set xs. P x})"
proof -
  assume "distinct (map f xs)"
  then have "distinct (map f (filter P xs))" by (rule distinct_map_filter)
  then have "card (set (map f (filter P xs))) = length (map f (filter P xs))"
    by (rule distinct_card)
  then show ?thesis by simp
qed

lemma active_count: "queueInv q \<Longrightarrow> length (activeJobs q) = card (processing q)"
  unfolding activeJobs_def
  by (subst filter_length_card [of job_id]) (auto simp: queueInv_def activeIds_def)

lemma getJob_in_jobs: "getJob q i = Some j \<Longrightarrow> j \<in> set (jobs q) \<and> job_id j = i"
  unfolding getJob_def by (auto simp: find_Some_iff)

lemma getJob_of_member:
  "distinct (map job_id (jobs q)) \<Longrightarrow> j \<in> set (jobs q) \<Longrightarrow> getJob q (job_id j) = Some j"
  unfolding getJob_def
proof (induction "jobs q" arbitrary: q)
  case Nil
  then show ?case by simp
next
  case (Cons x xs)
  from Cons.hyps(2) [symmetric] Cons.prems
  have "x = j \<or> (j \<in> set xs \<and> job_id x \<noteq> job_id j)" by auto
  moreover have "find (\<lambda>y. job_id y = job_id j) xs = Some j" if "j \<in> set xs"
    using Cons.hyps(1) [of "q\<lparr>jobs := xs\<rparr>"] Cons.hyps(2) [symmetric] Cons.prems(1) that
    by simp
  ultimately show ?case using Cons.hyps(2) [symmetric] by auto
qed

lemma find_other:
  "k \<noteq> i \<Longrightarrow> (\<And>x. job_id (f x) = job_id x) \<Longrightarrow>
   find (\<lambda>x. job_id x = i) (map (setField k f) xs) = find (\<lambda>x. job_id x = i) xs"
  by (induction xs) auto

lemma getJob_updateJob_other:
  "k \<noteq> i \<Longrightarrow> (\<And>x. job_id (f x) = job_id x) \<Longrightarrow> getJob (updateJob k f q) i = getJob q i"
  by (simp add: getJob_def updateJob_def find_other)

lemma inv_ids: "queueInv q \<Longrightarrow> map job_id (jobs q) = [1..<nextJobId q]"
  unfolding queueInv_def by blast

lemma inv_distinct: "queueInv q \<Longrightarrow> distinct (map job_id (jobs q))"
  using inv_ids [of q] by simp

lemma inv_active: "queueInv q \<Longrightarrow> activeIds (jobs q) = processing q"
  unfolding queueInv_def by blast

text \<open>The job behind an id of the processing set is active, and only such a job is.\<close>

lemma processing_is_active:
  assumes "queueInv q" and "getJob q i = Some j"
  shows "(i \<in> processing q) = (status j = Active)"
proof -
  have j: "j \<in> set (jobs q)" "job_id j = i" using getJob_in_jobs [OF assms(2)] by simp_all
  show ?thesis
  proof
    assume "i \<in> processing q"
    then have "i \<in> activeIds (jobs q)" using inv_active [OF assms(1)] by simp
    from active_of_id [OF inv_distinct [OF assms(1)] this j] show "status j = Active" .
  next
    assume "status j = Active"
    then have "i \<in> activeIds (jobs q)" using j by (auto simp: activeIds_def)
    then show "i \<in> processing q" using inv_active [OF assms(1)] by simp
  qed
qed

lemma processing_has_job:
  assumes "queueInv q" and "i \<in> processing q"
  shows "\<exists>j. getJob q i = Some j \<and> status j = Active"
proof -
  have "i \<in> activeIds (jobs q)" using assms inv_active by simp
  then obtain j where j: "j \<in> set (jobs q)" "status j = Active" "job_id j = i"
    by (auto simp: activeIds_def)
  from getJob_of_member [OF inv_distinct [OF assms(1)] j(1)] j show ?thesis by auto
qed

text \<open>Admission leaves every job that is not waiting as it is.\<close>

lemma startJob_keeps:
  assumes "queueInv q" and "getWaitingJobs q \<noteq> []"
    and "getJob q i = Some j" and "status j \<noteq> Waiting"
  shows "getJob (startJob q (hd (getWaitingJobs q))) i = Some j"
proof -
  let ?h = "hd (getWaitingJobs q)"
  have h: "?h \<in> set (jobs q)" "status ?h = Waiting"
    using hd_waiting_in_jobs [OF assms(2)] by simp_all
  have "getJob q (job_id ?h) = Some ?h"
    using getJob_of_member [OF inv_distinct [OF assms(1)] h(1)] .
  then have "job_id ?h \<noteq> i" using assms(3,4) h(2) by auto
  then show ?thesis
    using assms(3) by (simp add: startJob_def getJob_updateJob_other)
qed

lemma admitWaiting_keeps:
  "queueInv q \<Longrightarrow> isProcessing q \<Longrightarrow> getJob q i = Some j \<Longrightarrow> status j \<noteq> Waiting \<Longrightarrow>
   getJob (admitWaiting q) i = Some j"
proof (induction q rule: admitWaiting.induct)
  case (1 q)
  show ?case
  proof (cases "card (processing q) < concurrency q \<and> length (getWaitingJobs q) > 0")
    case True
    then have w: "getWaitingJobs q \<noteq> []" and room: "card (processing q) < concurrency q"
      by auto
    have s: "queueInv (startJob q (hd (getWaitingJobs q)))"
            "isProcessing (startJob q (hd (getWaitingJobs q)))"
      using inv_startJob [OF "1.prems"(1,2) room w] by simp_all
    have k: "getJob (startJob q (hd (getWaitingJobs q))) i = Some j"
      using startJob_keeps [OF "1.prems"(1) w "1.prems"(3,4)] .
    have e: "admitWaiting q = admitWaiting (startJob q (hd (getWaitingJobs q)))"
      using True by (rule admitWaiting_go)
    have "getJob (admitWaiting (startJob q (hd (getWaitingJobs q)))) i = Some j"
      using True s k "1.prems"(4) by (rule "1.IH")
    then show ?thesis by (simp only: e)
  next
    case False
    then have e: "admitWaiting q = q" by (rule admitWaiting_stop)
    show ?thesis using "1.prems"(3) by (simp only: e)
  qed
qed

lemma getJob_isProcessing [simp]: "getJob (q\<lparr>isProcessing := b\<rparr>) i = getJob q i"
  by (simp add: getJob_def)

lemma schedulerRound_keeps:
  assumes "queueInv q" and "isProcessing q" and "getJob q i = Some j" and "status j \<noteq> Waiting"
  shows "getJob (schedulerRound q) i = Some j"
proof -
  have a: "getJob (admitWaiting q) i = Some j" using assms by (rule admitWaiting_keeps)
  have b: "getJob (q\<lparr>isProcessing := False\<rparr>) i = Some j"
    using assms(3) by (simp only: getJob_isProcessing)
  show ?thesis
    unfolding schedulerRound_def using a b
    by (simp only: if_split [where P="\<lambda>x. getJob x i = Some j"] simp_thms)
qed

lemma find_append_first:
  "find P xs = Some x \<Longrightarrow> find P (xs @ ys) = Some x"
  by (induction xs) auto

lemma add_keeps:
  assumes "queueInv q" and "getJob q i = Some j" and "status j \<noteq> Waiting"
  shows "getJob (snd (add d now q)) i = Some j"
proof -
  let ?j = "\<lparr>job_id = nextJobId q, jobType = ''process-stable-study'', jobData = d,
             status = Waiting, createdAt = now, progress = 0,
             jobResult = None, jobError = None\<rparr>"
  let ?q1 = "q\<lparr>nextJobId := nextJobId q + 1, jobs := jobs q @ [?j]\<rparr>"
  have ids: "map job_id (jobs q) = [1..<nextJobId q]" using inv_ids [OF assms(1)] .
  have "job_id ?j \<notin> set (map job_id (jobs q))" using ids by simp
  then have ms: "mapSet ?j (jobs q) = jobs q @ [?j]" by (rule mapSet_fresh)
  have g1: "getJob ?q1 i = Some j"
    using assms(2) by (simp add: getJob_def find_append_first)
  have inv1: "queueInv (?q1\<lparr>isProcessing := True\<rparr>)"
    using assms(1) unfolding queueInv_def by (simp add: order_append_waiting)
  show ?thesis
  proof (cases "isProcessing q")
    case True
    then show ?thesis using g1 ms by (simp add: add_def Let_def)
  next
    case False
    have g2: "getJob (?q1\<lparr>isProcessing := True\<rparr>) i = Some j" using g1 by simp
    have r2: "isProcessing (?q1\<lparr>isProcessing := True\<rparr>)" by simp
    have "getJob (schedulerRound (?q1\<lparr>isProcessing := True\<rparr>)) i = Some j"
      using inv1 r2 g2 assms(3) by (rule schedulerRound_keeps)
    then show ?thesis using False ms by (simp add: add_def Let_def startProcessing_def)
  qed
qed

text \<open>A job that has reached a terminal status is never touched again.\<close>

lemma terminal_stays_step:
  assumes "queueInv q" and "getJob q i = Some j" and "status j = Completed \<or> status j = Failed"
  shows "getJob (step e q) i = Some j"
proof -
  have nw: "status j \<noteq> Waiting" and na: "status j \<noteq> Active" using assms(3) by auto
  have np: "i \<notin> processing q" using processing_is_active [OF assms(1,2)] na by simp
  show ?thesis
  proof (cases e)
    case (Add d now)
    then show ?thesis using add_keeps [OF assms(1,2) nw] by simp
  next
    case Tick
    show ?thesis
    proof (cases "isProcessing q")
      case True
      have "getJob (schedulerRound q) i = Some j"
        using assms(1) True assms(2) nw by (rule schedulerRound_keeps)
      then show ?thesis using Tick True by simp
    next
      case False
      then show ?thesis using Tick assms(2) by simp
    qed
  next
    case (Progress k n)
    show ?thesis
    proof (cases "k \<in> processing q")
      case True
      then have "k \<noteq> i" using np by auto
      then show ?thesis using Progress True assms(2) by (simp add: getJob_updateJob_other)
    next
      case False
      then show ?thesis using Progress assms(2) by simp
    qed
  next
    case (Settle k r)
    show ?thesis
    proof (cases "k \<in> processing q")
      case True
      then have "k \<noteq> i" using np by auto
      then show ?thesis
        using Settle True assms(2)
        by (cases r) (simp_all add: settleJob_def getJob_updateJob_other)
    next
      case False
      then show ?thesis using Settle assms(2) by simp
    qed
  qed
qed

lemma terminal_stays_run:
  "queueInv q \<Longrightarrow> getJob q i = Some j \<Longrightarrow> status j = Completed \<or> status j = Failed \<Longrightarrow>
   getJob (run es q) i = Some j"
  unfolding run_def
proof (induction es arbitrary: q)
  case Nil
  then show ?case by simp
next
  case (Cons e es)
  have "queueInv (step e q)" using Cons.prems(1) by (rule inv_step)
  moreover have "getJob (step e q) i = Some j" using Cons.prems by (rule terminal_stays_step)
  ultimately show ?case using Cons.IH Cons.prems(3) by simp
qed

lemma settle_status:
  assumes "getJob q i = Some j0"
  shows "\<exists>j. getJob (settleJob i r q) i = Some j \<and> status j = terminalStatus r \<and>
             jobResult j = (case r of Inl msg \<Rightarrow> jobResult j0 | Inr res \<Rightarrow> Some res) \<and>
             jobError j = (case r of Inl msg \<Rightarrow> Some msg | Inr res \<Rightarrow> jobError j0)"
  using assms
  by (cases r) (simp_all add: settleJob_def getJob_updateJob terminalStatus_def)

lemma in_order_index:
  "admittedInOrder js \<Longrightarrow> a < b \<Longrightarrow> b < length js \<Longrightarrow> status (js ! a) = Waiting \<Longrightarrow>
   status (js ! b) = Waiting"
proof (induction js arbitrary: a b)
  case Nil
  then show ?case by simp
next
  case (Cons x xs)
  obtain b' where b: "b = Suc b'" using Cons.prems(2) by (cases b) auto
  show ?case
  proof (cases "status x = Waiting")
    case True
    then have "list_all (\<lambda>x. status x = Waiting) xs" using Cons.prems(1) by simp
    then show ?thesis using b Cons.prems(3) by (simp add: list_all_length)
  next
    case False
    then obtain a' where a: "a = Suc a'" using Cons.prems(4) by (cases a) auto
    have "admittedInOrder xs" using Cons.prems(1) False by simp
    from Cons.IH [OF this, of a' b'] show ?thesis using a b Cons.prems by simp
  qed
qed

lemma at_ceiling_no_admission:
  "card (processing q) = concurrency q \<Longrightarrow> admitWaiting q = q"
  by (rule admitWaiting_stop) simp

text \<open>
  Claim C9: in every state the queue reaches from the empty queue, by any sequence of
  calls of add, scheduler rounds, progress updates and settled jobs, the ceiling is 10
  and the number of Active jobs never exceeds it; the ids are in arrival order and no
  job is Active or finished behind a Waiting one (admission is first in, first out);
  and at the ceiling a scheduler round admits nothing and a new job stays Waiting.
\<close>

theorem active_jobs_never_exceed_ceiling:
  "concurrency (run es newQueue) = 10 \<and>
   length (activeJobs (run es newQueue)) \<le> concurrency (run es newQueue) \<and>
   length (activeJobs (run es newQueue)) = card (processing (run es newQueue)) \<and>
   map job_id (jobs (run es newQueue)) = [1..<nextJobId (run es newQueue)] \<and>
   (\<forall>a b. a < b \<and> b < length (jobs (run es newQueue)) \<and>
          status (jobs (run es newQueue) ! a) = Waiting
          \<longrightarrow> status (jobs (run es newQueue) ! b) = Waiting) \<and>
   (card (processing (run es newQueue)) = concurrency (run es newQueue) \<longrightarrow>
      step Tick (run es newQueue) = run es newQueue \<and>
      (\<exists>j. jobs (step (Add d now) (run es newQueue)) = jobs (run es newQueue) @ [j] \<and>
           status j = Waiting \<and> jobData j = d))"
proof -
  let ?q = "run es newQueue"
  have inv: "queueInv ?q" using inv_newQueue by (rule inv_run)
  have c: "concurrency ?q = 10" and le: "card (processing ?q) \<le> 10"
    and ids: "map job_id (jobs ?q) = [1..<nextJobId ?q]"
    and ord: "admittedInOrder (jobs ?q)"
    and live: "isProcessing ?q \<or> (getWaitingJobs ?q = [] \<and> processing ?q = {})"
    using inv unfolding queueInv_def by blast+
  have cnt: "length (activeJobs ?q) = card (processing ?q)" using inv by (rule active_count)
  have fifo: "\<forall>a b. a < b \<and> b < length (jobs ?q) \<and> status (jobs ?q ! a) = Waiting
                \<longrightarrow> status (jobs ?q ! b) = Waiting"
    using in_order_index [OF ord] by blast
  have full: "step Tick ?q = ?q \<and>
      (\<exists>j. jobs (step (Add d now) ?q) = jobs ?q @ [j] \<and> status j = Waiting \<and> jobData j = d)"
    if full: "card (processing ?q) = concurrency ?q"
  proof -
    have "processing ?q \<noteq> {}" using full c by auto
    then have running: "isProcessing ?q" using live by blast
    have "schedulerRound ?q = ?q"
      using full c by (simp add: schedulerRound_def at_ceiling_no_admission)
    then have 1: "step Tick ?q = ?q" using running by simp
    have "nextJobId ?q \<notin> set (map job_id (jobs ?q))" using ids by simp
    then have 2: "\<exists>j. jobs (step (Add d now) ?q) = jobs ?q @ [j] \<and> status j = Waiting \<and> jobData j = d"
      using running by (simp add: add_def Let_def mapSet_def)
    from 1 2 show ?thesis by blast
  qed
  show ?thesis using c le cnt ids fifo full by simp
qed

theorem active_jobs_never_exceed_ceiling_witness:
  "map status (jobs (run burst newQueue))
     = [Active, Active, Active, Active, Active, Active, Active, Active, Active, Active,
        Waiting, Waiting, Waiting] \<and>
   length (activeJobs (run burst newQueue)) = 10 \<and>
   card (processing (run burst newQueue)) = concurrency (run burst newQueue) \<and>
   step Tick (run burst newQueue) = run burst newQueue \<and>
   (\<exists>j. jobs (step (Add (jobData exampleJob) 13) (run burst newQueue))
          = jobs (run burst newQueue) @ [j] \<and>
        status j = Waiting \<and> jobData j = jobData exampleJob)"
proof -
  have a: "map status (jobs (run burst newQueue))
     = [Active, Active, Active, Active, Active, Active, Active, Active, Active, Active,
        Waiting, Waiting, Waiting]"
    by code_simp
  have b: "card (processing (run burst newQueue)) = 10" by code_simp
  from active_jobs_never_exceed_ceiling [of burst "jobData exampleJob" 13] a b
  show ?thesis by simp
qed

lemma processJob_settles:
  assumes "getJob q (job_id j) = Some j"
  shows "\<exists>j'. getJob (fst (processJob env j (q, w))) (job_id j) = Some j' \<and>
              status j' = terminalStatus (fst (processStableStudy env j w)) \<and>
              job_id j \<notin> processing (fst (processJob env j (q, w)))"
proof (cases "processStableStudy env j w")
  case (Pair r w')
  show ?thesis
  proof (cases r)
    case (Inl e)
    then have p: "processStableStudy env j w = (Inl e, w')" using Pair by simp
    from processJob_failed [OF p assms] p show ?thesis
      by (auto simp: terminalStatus_def)
  next
    case (Inr res)
    then have p: "processStableStudy env j w = (Inr res, w')" using Pair by simp
    from processJob_completed [OF p assms] p show ?thesis
      by (auto simp: terminalStatus_def)
  qed
qed

lemma settleJob_frame [simp]:
  "concurrency (settleJob i r q) = concurrency q"
  "isProcessing (settleJob i r q) = isProcessing q"
  "processing (settleJob i r q) = processing q - {i}"
  by (cases r; simp add: settleJob_def updateJob_def)+

lemma terminal_cases: "terminalStatus r = Completed \<or> terminalStatus r = Failed"
  by (cases r) (simp_all add: terminalStatus_def)

text \<open>With room and a job waiting, the scheduler's next round starts the oldest waiting job.\<close>

lemma oldest_waiting_is_admitted:
  assumes inv: "queueInv q" and running: "isProcessing q"
    and room: "card (processing q) < concurrency q" and w: "getWaitingJobs q \<noteq> []"
  shows "\<exists>k. getJob (step Tick q) (job_id (hd (getWaitingJobs q))) = Some k \<and> status k = Active"
proof -
  let ?h = "hd (getWaitingJobs q)"
  let ?k = "?h\<lparr>status := Active, progress := 10\<rparr>"
  have h: "?h \<in> set (jobs q)" using hd_waiting_in_jobs [OF w] by simp
  have g: "getJob q (job_id ?h) = Some ?h"
    using getJob_of_member [OF inv_distinct [OF inv] h] .
  have s: "queueInv (startJob q ?h)" "isProcessing (startJob q ?h)"
    using inv_startJob [OF inv running room w] by simp_all
  have k: "getJob (startJob q ?h) (job_id ?h) = Some ?k"
    using g by (simp add: startJob_def getJob_updateJob)
  have nw: "status ?k \<noteq> Waiting" by simp
  have a: "getJob (admitWaiting (startJob q ?h)) (job_id ?h) = Some ?k"
    using s k nw by (rule admitWaiting_keeps)
  have c: "card (processing q) < concurrency q \<and> length (getWaitingJobs q) > 0"
    using room w by simp
  have e: "admitWaiting q = admitWaiting (startJob q ?h)" using c by (rule admitWaiting_go)
  have "step Tick q = admitWaiting q" using running w by (simp add: schedulerRound_def)
  then have "getJob (step Tick q) (job_id ?h) = Some ?k" using a e by simp
  then show ?thesis by simp
qed

text \<open>
  Claim C10: a job that the queue has admitted is Active; when its pipeline settles it
  gets exactly one terminal status, Completed with the result if the pipeline returned
  and Failed with the message if it threw, and keeps it whatever happens later; its id
  leaves the processing set, so that there is room below the ceiling again and the next
  scheduler round admits the oldest waiting job, if there is one. The same holds for
  processJob run from its start to its end with the pipeline of the model.
\<close>

theorem settled_job_frees_its_slot:
  assumes "i \<in> processing (run es newQueue)"
  shows "\<exists>j0 j.
           getJob (run es newQueue) i = Some j0 \<and> status j0 = Active \<and>
           getJob (step (Settle i r) (run es newQueue)) i = Some j \<and>
           status j = terminalStatus r \<and> (status j = Completed \<or> status j = Failed) \<and>
           jobResult j = (case r of Inl msg \<Rightarrow> jobResult j0 | Inr res \<Rightarrow> Some res) \<and>
           jobError j = (case r of Inl msg \<Rightarrow> Some msg | Inr res \<Rightarrow> jobError j0) \<and>
           i \<notin> processing (step (Settle i r) (run es newQueue)) \<and>
           card (processing (step (Settle i r) (run es newQueue)))
             < concurrency (step (Settle i r) (run es newQueue)) \<and>
           (\<forall>later. getJob (run later (step (Settle i r) (run es newQueue))) i = Some j) \<and>
           (getWaitingJobs (step (Settle i r) (run es newQueue)) \<noteq> [] \<longrightarrow>
              (\<exists>k. getJob (step Tick (step (Settle i r) (run es newQueue)))
                          (job_id (hd (getWaitingJobs (step (Settle i r) (run es newQueue)))))
                      = Some k \<and>
                   status k = Active)) \<and>
           (\<forall>env w. \<exists>j'. getJob (fst (processJob env j0 (run es newQueue, w))) i = Some j' \<and>
                     status j' = terminalStatus (fst (processStableStudy env j0 w)) \<and>
                     i \<notin> processing (fst (processJob env j0 (run es newQueue, w))))"
proof -
  let ?q = "run es newQueue"
  let ?q' = "step (Settle i r) ?q"
  have inv: "queueInv ?q" using inv_newQueue by (rule inv_run)
  have c: "concurrency ?q = 10" and fin: "finite (processing ?q)"
    and le: "card (processing ?q) \<le> 10"
    and live: "isProcessing ?q \<or> (getWaitingJobs ?q = [] \<and> processing ?q = {})"
    using inv unfolding queueInv_def by blast+
  have running: "isProcessing ?q" using live assms by auto
  obtain j0 where j0: "getJob ?q i = Some j0" "status j0 = Active"
    using processing_has_job [OF inv assms] by blast
  have q': "?q' = settleJob i r ?q" using assms by simp
  have inv': "queueInv ?q'" using inv by (rule inv_step)
  obtain j where j: "getJob (settleJob i r ?q) i = Some j" "status j = terminalStatus r"
      "jobResult j = (case r of Inl msg \<Rightarrow> jobResult j0 | Inr res \<Rightarrow> Some res)"
      "jobError j = (case r of Inl msg \<Rightarrow> Some msg | Inr res \<Rightarrow> jobError j0)"
    using settle_status [OF j0(1), of r] by blast
  have t: "status j = Completed \<or> status j = Failed" using j(2) terminal_cases [of r] by simp
  have out: "i \<notin> processing ?q'" using q' by simp
  have "card (processing ?q - {i}) < card (processing ?q)"
    using fin assms by (rule card_Diff1_less)
  then have room: "card (processing ?q') < concurrency ?q'" using q' le c by simp
  have run': "isProcessing ?q'" using q' running by simp
  have g': "getJob ?q' i = Some j" using q' j(1) by simp
  have stays: "\<forall>later. getJob (run later ?q') i = Some j"
    using terminal_stays_run [OF inv' g' t] by blast
  have next_in: "getWaitingJobs ?q' \<noteq> [] \<longrightarrow>
      (\<exists>k. getJob (step Tick ?q') (job_id (hd (getWaitingJobs ?q'))) = Some k \<and> status k = Active)"
    using oldest_waiting_is_admitted [OF inv' run' room] by blast
  have ji: "job_id j0 = i" using getJob_in_jobs [OF j0(1)] by simp
  have alone: "\<forall>env w. \<exists>j'. getJob (fst (processJob env j0 (?q, w))) i = Some j' \<and>
                     status j' = terminalStatus (fst (processStableStudy env j0 w)) \<and>
                     i \<notin> processing (fst (processJob env j0 (?q, w)))"
    using processJob_settles [of ?q j0] j0(1) ji by simp
  show ?thesis
    using j0 g' j(2,3,4) t out room stays next_in alone by blast
qed

theorem settled_job_frees_its_slot_witness:
  "3 \<in> processing (run burst newQueue) \<and>
   map status (jobs (step (Settle 3 (Inl ''boom'')) (run burst newQueue)))
     = [Active, Active, Failed, Active, Active, Active, Active, Active, Active, Active,
        Waiting, Waiting, Waiting] \<and>
   job_id (hd (getWaitingJobs (step (Settle 3 (Inl ''boom'')) (run burst newQueue)))) = 11 \<and>
   (\<exists>j. getJob (step (Settle 3 (Inl ''boom'')) (run burst newQueue)) 3 = Some j \<and>
        status j = Failed \<and> jobError j = Some ''boom'' \<and>
        (\<forall>later. getJob (run later (step (Settle 3 (Inl ''boom'')) (run burst newQueue))) 3
                   = Some j)) \<and>
   card (processing (step (Settle 3 (Inl ''boom'')) (run burst newQueue))) < 10 \<and>
   (\<exists>k. getJob (step Tick (step (Settle 3 (Inl ''boom'')) (run burst newQueue))) 11 = Some k \<and>
        status k = Active)"
proof -
  let ?q' = "step (Settle 3 (Inl ''boom'')) (run burst newQueue)"
  have a: "3 \<in> processing (run burst newQueue)" by code_simp
  have b: "map status (jobs ?q')
     = [Active, Active, Failed, Active, Active, Active, Active, Active, Active, Active,
        Waiting, Waiting, Waiting]"
    by code_simp
  have c: "job_id (hd (getWaitingJobs ?q')) = 11" by code_simp
  have d: "getWaitingJobs ?q' \<noteq> []" by code_simp
  have e: "concurrency ?q' = 10" by code_simp
  from settled_job_frees_its_slot [OF a, of "Inl ''boom''"] a b c d e
  show ?thesis by (auto simp: terminalStatus_def)
qed

end
